theory Spec2Isabelle
  imports Main "HOL-Library.Sublist" "HOL-Library.Word" "HOL-Library.AList"
begin

section \<open>Forensic inspection of SQLite files: a model of sqlite\_forensics.py\<close>

text \<open>
  The theory embeds the class \<open>SQLiteForensics\<close> of \<open>sqlite_forensics.py\<close>. Every method
  keeps its name. What the program asks of the operating system, of \<open>hashlib\<close>, of
  \<open>pathlib\<close> and of the \<open>sqlite3\<close> engine is collected in one environment record; what
  the program changes (open connections, files written) is an explicit state.
\<close>

subsection \<open>Strings, exceptions, paths\<close>

text \<open>
  A Python \<open>str\<close> is a sequence of Unicode code points, \<open>bytes\<close> a sequence of octets.
  The program's Ukrainian literals are written as their code points.
\<close>

type_synonym str = "nat list"
type_synonym bytes = "8 word list"

definition ascii :: "string \<Rightarrow> str" where
  "ascii s = map of_char s"

text \<open>Every handler of the program is \<open>except Exception as e\<close> and reads only \<open>str(e)\<close>.\<close>

datatype exn = Exception (message: str)

text \<open>The Ukrainian word for "error", a colon and a space: the literal part of the f-string
  that wraps \<open>str(e)\<close> (nine code points).\<close>

definition error_prefix :: str where
  "error_prefix = [1055, 1086, 1084, 1080, 1083, 1082, 1072, 58, 32]"

text \<open>The Ukrainian for "export error", a colon and a space: the wrapper of export\_table\_data.\<close>

definition export_error_prefix :: str where
  "export_error_prefix =
     [1055, 1086, 1084, 1080, 1083, 1082, 1072, 32,
      1077, 1082, 1089, 1087, 1086, 1088, 1090, 1091, 58, 32]"

text \<open>
  A \<open>pathlib\<close> path in POSIX flavour: whether it is anchored at the root, and its
  components. \<open>pathlib\<close> keeps paths normalised: no component is empty, is \<open>"."\<close> or
  holds a separator.
\<close>

datatype path = Path (is_absolute: bool) (parts: "str list")

definition sep :: nat where
  "sep = 47"

definition wf_part :: "str \<Rightarrow> bool" where
  "wf_part s = (s \<noteq> [] \<and> sep \<notin> set s \<and> s \<noteq> [46])"

definition wf_path :: "path \<Rightarrow> bool" where
  "wf_path p = list_all wf_part (parts p)"

fun join_parts :: "str list \<Rightarrow> str" where
  "join_parts [] = []"
| "join_parts [x] = x"
| "join_parts (x # y # ys) = x @ sep # join_parts (y # ys)"

text \<open>\<open>str(p)\<close>: the empty relative path prints as \<open>"."\<close>.\<close>

definition path_str :: "path \<Rightarrow> str" where
  "path_str p =
     (if is_absolute p then sep # join_parts (parts p)
      else if parts p = [] then [46]
      else join_parts (parts p))"

text \<open>\<open>p.name\<close>: the last component, empty when there is none.\<close>

definition path_name :: "path \<Rightarrow> str" where
  "path_name p = (if parts p = [] then [] else last (parts p))"

text \<open>\<open>name.rfind('.')\<close>, \<open>None\<close> standing for Python's \<open>-1\<close>.\<close>

definition rfind_dot :: "str \<Rightarrow> nat option" where
  "rfind_dot name =
     (if 46 \<in> set name
      then Some (length name - 1 - length (takeWhile (\<lambda>c. c \<noteq> 46) (rev name)))
      else None)"

text \<open>
  \<open>p.stem\<close>, as \<open>pathlib\<close> computes it: the name up to its last dot, when that dot is
  neither the first nor the last character of the name.
\<close>

definition stem :: "path \<Rightarrow> str" where
  "stem p =
     (let name = path_name p in
      case rfind_dot name of
        None \<Rightarrow> name
      | Some i \<Rightarrow> if 0 < i \<and> i < length name - 1 then take i name else name)"

fun split_on :: "nat \<Rightarrow> str \<Rightarrow> str list" where
  "split_on c [] = [[]]"
| "split_on c (x # xs) =
     (if x = c then [] # split_on c xs
      else (case split_on c xs of
              [] \<Rightarrow> [[x]]
            | w # ws \<Rightarrow> (x # w) # ws))"

text \<open>
  \<open>p / s\<close> for a string \<open>s\<close>: the string is parsed into components (empty ones and
  \<open>"."\<close> are dropped); a string that starts with the separator replaces \<open>p\<close>.
\<close>

definition joinpath :: "path \<Rightarrow> str \<Rightarrow> path" where
  "joinpath p s =
     (let ws = filter (\<lambda>w. w \<noteq> [] \<and> w \<noteq> [46]) (split_on sep s) in
      if s \<noteq> [] \<and> hd s = sep then Path True ws
      else Path (is_absolute p) (parts p @ ws))"

text \<open>The path of a directory entry \<open>n\<close> of the directory \<open>p\<close>, as a directory scan makes it.\<close>

definition child :: "path \<Rightarrow> str \<Rightarrow> path" where
  "child p n = Path (is_absolute p) (parts p @ [n])"

subsection \<open>The world outside the program\<close>

text \<open>
  A \<open>hashlib\<close> digest object: its initial state, \<open>update\<close> and \<open>hexdigest\<close>
  (which raises for the extendable-output algorithms, called without a length).
\<close>

record 'h digest =
  h_init :: 'h
  h_update :: "'h \<Rightarrow> bytes \<Rightarrow> 'h"
  h_hexdigest :: "'h \<Rightarrow> exn + str"

text \<open>
  A file opened for reading: its contents and, possibly, an I/O fault: \<open>Some (k, e)\<close>
  makes the read call that follows \<open>k\<close> successful ones raise \<open>e\<close>.
\<close>

datatype file_obj = File (data: bytes) (fault: "(nat \<times> exn) option")

text \<open>\<open>os.stat\<close>: the size and the three timestamps (whole seconds, all the format string keeps).\<close>

record stat_result =
  st_size :: nat
  st_ctime :: int
  st_mtime :: int
  st_atime :: int

text \<open>
  A value of a result row. A REAL or BLOB value is carried by its Python \<open>str()\<close> form,
  which is all the program ever takes from it.
\<close>

datatype cell = CNull | CInt int | CText str | COther str

type_synonym row = "cell list"

text \<open>
  An opened database: what \<open>cursor.execute(sql)\<close> followed by fetching all rows gives
  for a statement text, an exception or the rows.
\<close>

type_synonym database = "str \<Rightarrow> exn + row list"

text \<open>A directory tree as a scan sees it: the entries of a directory in scan order.\<close>

datatype node = FileNode | DirNode "(str \<times> node) list"

record 'h env =
  directory_path :: path
  output_dir :: path
  tree :: "(str \<times> node) list"
  hashlib_new :: "str \<Rightarrow> 'h digest option"
  open_rb :: "path \<Rightarrow> exn + file_obj"
  stat :: "path \<Rightarrow> exn + stat_result"
  fromtimestamp :: "int \<Rightarrow> exn + str"
  round_mb :: "nat \<Rightarrow> int"
  sqlite_connect :: "path \<Rightarrow> exn + database"
  mkdir :: "path \<Rightarrow> exn option"
  open_w :: "path \<Rightarrow> exn option"
  write_report :: "path \<Rightarrow> exn option"
  writerow :: "row \<Rightarrow> exn option"
  resolve :: "path \<Rightarrow> path"
  now_analysis_date :: str
  now_json_stamp :: str
  now_text_stamp :: str

text \<open>
  The fields: the two directories the object is made with; the tree under the first;
  \<open>hashlib.new\<close> (\<open>None\<close> for an unknown name); \<open>open(p, 'rb')\<close>; \<open>p.stat()\<close>;
  \<open>datetime.fromtimestamp(t).strftime('%Y-%m-%d %H:%M:%S')\<close>; the rounded size;
  \<open>sqlite3.connect\<close>; \<open>mkdir(exist_ok=True)\<close>, \<open>open(p, 'w')\<close> and the writing of one CSV
  record, each with the exception it raises, if any; the writing of a report file as a
  whole (opening it, then \<open>json.dump\<close> or the \<open>write\<close> calls), with the exception it raises, if
  any; \<open>p.resolve()\<close>; and the three readings of the clock, formatted.
\<close>

subsection \<open>calculate\_hash\<close>

text \<open>\<open>fault_now\<close>: does the read call issued now raise; \<open>tick\<close>: one read call has succeeded.\<close>

definition fault_now :: "(nat \<times> exn) option \<Rightarrow> exn option" where
  "fault_now ft = (case ft of None \<Rightarrow> None | Some (k, e) \<Rightarrow> if k = 0 then Some e else None)"

definition tick :: "(nat \<times> exn) option \<Rightarrow> (nat \<times> exn) option" where
  "tick ft = (case ft of None \<Rightarrow> None | Some (k, e) \<Rightarrow> Some (k - 1, e))"

text \<open>
  \<open>for chunk in iter(lambda: f.read(4096), b""): hash_func.update(chunk)\<close>.
  \<open>f.read(4096)\<close> returns the next 4096 octets, fewer at the end of the file, and the
  loop stops at the first empty chunk.
\<close>

function read_loop ::
  "'h digest \<Rightarrow> 'h \<Rightarrow> bytes \<Rightarrow> (nat \<times> exn) option \<Rightarrow> exn + 'h" where
  "read_loop d h rest ft =
     (case fault_now ft of
        Some e \<Rightarrow> Inl e
      | None \<Rightarrow>
          if take 4096 rest = [] then Inr h
          else read_loop d (h_update d h (take 4096 rest)) (drop 4096 rest) (tick ft))"
  by pat_completeness auto
termination
  by (relation "measure (\<lambda>(d, h, rest, ft). length rest)") auto

declare read_loop.simps [simp del]

text \<open>
  \<open>hashlib.new\<close> stands outside the \<open>try\<close>: an unknown algorithm name raises out of the
  method. Everything else is caught and returned as a string.
\<close>

definition calculate_hash :: "'h env \<Rightarrow> path \<Rightarrow> str \<Rightarrow> exn + str" where
  "calculate_hash env filepath hash_type =
     (case hashlib_new env hash_type of
        None \<Rightarrow> Inl (Exception (ascii ''unsupported hash type '' @ hash_type))
      | Some d \<Rightarrow>
          Inr (case open_rb env filepath of
                 Inl e \<Rightarrow> error_prefix @ message e
               | Inr f \<Rightarrow>
                   (case read_loop d (h_init d) (data f) (fault f) of
                      Inl e \<Rightarrow> error_prefix @ message e
                    | Inr h \<Rightarrow>
                        (case h_hexdigest d h of
                           Inl e \<Rightarrow> error_prefix @ message e
                         | Inr hx \<Rightarrow> hx))))"

text \<open>
  The single-read variant the streaming loop is compared with:
  \<open>hash_func.update(f.read())\<close> in place of the loop, everything else alike.
\<close>

definition read_all :: "file_obj \<Rightarrow> exn + bytes" where
  "read_all f = (case fault_now (fault f) of Some e \<Rightarrow> Inl e | None \<Rightarrow> Inr (data f))"

definition whole_file_hash :: "'h env \<Rightarrow> path \<Rightarrow> str \<Rightarrow> exn + str" where
  "whole_file_hash env filepath hash_type =
     (case hashlib_new env hash_type of
        None \<Rightarrow> Inl (Exception (ascii ''unsupported hash type '' @ hash_type))
      | Some d \<Rightarrow>
          Inr (case open_rb env filepath of
                 Inl e \<Rightarrow> error_prefix @ message e
               | Inr f \<Rightarrow>
                   (case read_all f of
                      Inl e \<Rightarrow> error_prefix @ message e
                    | Inr contents \<Rightarrow>
                        (case h_hexdigest d (h_update d (h_init d) contents) of
                           Inl e \<Rightarrow> error_prefix @ message e
                         | Inr hx \<Rightarrow> hx))))"

text \<open>
  What \<open>hashlib\<close> documents of a digest object: feeding \<open>a\<close> and then \<open>b\<close> is feeding
  \<open>a + b\<close>, and feeding nothing changes nothing.
\<close>

definition streaming :: "'h digest \<Rightarrow> bool" where
  "streaming d =
     ((\<forall>h a b. h_update d (h_update d h a) b = h_update d h (a @ b))
      \<and> (\<forall>h. h_update d h [] = h))"

text \<open>A lowercase hexadecimal string: digits \<open>0-9\<close> and letters \<open>a-f\<close>, at least one.\<close>

definition lowercase_hex :: "str \<Rightarrow> bool" where
  "lowercase_hex s =
     (s \<noteq> [] \<and> list_all (\<lambda>c. (48 \<le> c \<and> c \<le> 57) \<or> (97 \<le> c \<and> c \<le> 102)) s)"

text \<open>What \<open>hashlib\<close> documents of \<open>hexdigest\<close>: the digest in lowercase hexadecimal.\<close>

definition hex_digests :: "'h digest \<Rightarrow> bool" where
  "hex_digests d = (\<forall>h hx. h_hexdigest d h = Inr hx \<longrightarrow> lowercase_hex hx)"

subsection \<open>get\_file\_metadata\<close>

record metadata =
  filename :: str
  full_path :: str
  size_bytes :: nat
  size_mb :: int
  created :: str
  modified :: str
  accessed :: str
  md5 :: str
  sha1 :: str
  sha256 :: str

text \<open>
  \<open>filepath.stat()\<close> is the first statement and stands in no \<open>try\<close>; the dictionary is
  then built field by field, in the order of the source. \<open>size_mb\<close> is float arithmetic
  (\<open>round(st_size / (1024*1024), 2)\<close>) and is left to the environment, in hundredths.
\<close>

definition get_file_metadata :: "'h env \<Rightarrow> path \<Rightarrow> exn + metadata" where
  "get_file_metadata env filepath =
     (case stat env filepath of
        Inl e \<Rightarrow> Inl e
      | Inr st \<Rightarrow>
     (case fromtimestamp env (st_ctime st) of
        Inl e \<Rightarrow> Inl e
      | Inr c \<Rightarrow>
     (case fromtimestamp env (st_mtime st) of
        Inl e \<Rightarrow> Inl e
      | Inr m \<Rightarrow>
     (case fromtimestamp env (st_atime st) of
        Inl e \<Rightarrow> Inl e
      | Inr a \<Rightarrow>
     (case calculate_hash env filepath (ascii ''md5'') of
        Inl e \<Rightarrow> Inl e
      | Inr h1 \<Rightarrow>
     (case calculate_hash env filepath (ascii ''sha1'') of
        Inl e \<Rightarrow> Inl e
      | Inr h2 \<Rightarrow>
     (case calculate_hash env filepath (ascii ''sha256'') of
        Inl e \<Rightarrow> Inl e
      | Inr h3 \<Rightarrow>
          Inr \<lparr>filename = path_name filepath,
               full_path = path_str filepath,
               size_bytes = st_size st,
               size_mb = round_mb env (st_size st),
               created = c, modified = m, accessed = a,
               md5 = h1, sha1 = h2, sha256 = h3\<rparr>)))))))"

subsection \<open>The program's state and its reports\<close>

text \<open>\<open>str(v)\<close> of a value, as an f-string formats it.\<close>

function nat_repr :: "nat \<Rightarrow> str" where
  "nat_repr n = (if n < 10 then [48 + n] else nat_repr (n div 10) @ [48 + n mod 10])"
  by pat_completeness auto
termination
  by (relation "measure (\<lambda>n. n)") auto

declare nat_repr.simps [simp del]

definition py_str :: "cell \<Rightarrow> str" where
  "py_str v =
     (case v of
        CNull \<Rightarrow> ascii ''None''
      | CInt i \<Rightarrow> (if i < 0 then 45 # nat_repr (nat (- i)) else nat_repr (nat i))
      | CText s \<Rightarrow> s
      | COther s \<Rightarrow> s)"

record column_info =
  c_id :: cell
  c_name :: cell
  c_type :: cell
  c_not_null :: cell
  c_default :: cell
  c_pk :: cell

text \<open>An entry of \<open>tables_info\<close>: \<open>{'row_count': .., 'columns': [..]}\<close> or \<open>{'error': ..}\<close>.\<close>

datatype table_info = TableInfo (row_count: cell) (columns: "column_info list") | TableError str

text \<open>Python dictionaries keep insertion order; they are association lists here.\<close>

record database_info =
  sqlite_version :: cell
  tables_count :: nat
  tables :: "cell list"
  tables_info :: "(cell \<times> table_info) list"
  indexes :: "cell list"
  triggers :: "cell list"

datatype db_info_result = DbInfo database_info | DbInfoError str

datatype deleted_result = Freelist (freelist_pages: cell) (dr_note: str) | DeletedError str

record db_report =
  r_metadata :: metadata
  r_integrity :: cell
  r_database_info :: db_info_result
  r_deleted_records :: deleted_result
  r_exported_tables :: "(cell \<times> str) list option"

text \<open>An entry of \<open>databases\<close>: the report of one file, or \<open>{'error': str(e)}\<close>.\<close>

datatype db_entry = Analysed db_report | Failed str

record full_report =
  analysis_date :: str
  directory :: str
  output_directory :: str
  total_files :: nat
  databases :: "(str \<times> db_entry) list"

text \<open>
  A file the program has written: the records of a CSV file, or one of the two renderings
  of the run report (the JSON and the text layout are not modelled further).
\<close>

datatype content = CsvFile "row list" | JsonFile full_report | TextFile full_report

text \<open>The connections that are open (by database path) and the files written so far.\<close>

record state =
  conns :: "path list"
  written :: "path \<Rightarrow> content option"

definition connect_st :: "path \<Rightarrow> state \<Rightarrow> state" where
  "connect_st p st = st\<lparr>conns := p # conns st\<rparr>"

definition close_st :: "path \<Rightarrow> state \<Rightarrow> state" where
  "close_st p st = st\<lparr>conns := remove1 p (conns st)\<rparr>"

subsection \<open>Statements and rows\<close>

definition quoted :: "str \<Rightarrow> str" where
  "quoted s = 39 # s @ [39]"

definition integrity_sql :: str where
  "integrity_sql = ascii ''PRAGMA integrity_check;''"

definition version_sql :: str where
  "version_sql = ascii ''SELECT sqlite_version();''"

definition master_sql :: "string \<Rightarrow> str" where
  "master_sql ty = ascii ''SELECT name FROM sqlite_master WHERE type='' @ quoted (ascii ty) @ ascii '';''"

definition count_sql :: "str \<Rightarrow> str" where
  "count_sql t = ascii ''SELECT COUNT(*) FROM '' @ quoted t @ ascii '';''"

definition table_info_sql :: "str \<Rightarrow> str" where
  "table_info_sql t = ascii ''PRAGMA table_info('' @ quoted t @ ascii '');''"

definition select_all_sql :: "str \<Rightarrow> str" where
  "select_all_sql t = ascii ''SELECT * FROM '' @ quoted t @ ascii '';''"

definition freelist_sql :: str where
  "freelist_sql = ascii ''PRAGMA freelist_count;''"

definition index_error :: exn where
  "index_error = Exception (ascii ''tuple index out of range'')"

definition none_error :: exn where
  "none_error = Exception (quoted (ascii ''NoneType'') @ ascii '' object is not subscriptable'')"

text \<open>\<open>r[i]\<close> on a row.\<close>

definition item :: "row \<Rightarrow> nat \<Rightarrow> exn + cell" where
  "item r i = (if i < length r then Inr (r ! i) else Inl index_error)"

text \<open>\<open>cursor.fetchone()[0]\<close>: \<open>fetchone\<close> gives \<open>None\<close> when there is no row.\<close>

definition fetchone0 :: "row list \<Rightarrow> exn + cell" where
  "fetchone0 rows = (case rows of [] \<Rightarrow> Inl none_error | r # _ \<Rightarrow> item r 0)"

text \<open>A list comprehension whose element expression may raise: the first exception ends it.\<close>

fun collect :: "('a \<Rightarrow> exn + 'b) \<Rightarrow> 'a list \<Rightarrow> exn + 'b list" where
  "collect f [] = Inr []"
| "collect f (x # xs) =
     (case f x of
        Inl e \<Rightarrow> Inl e
      | Inr y \<Rightarrow> (case collect f xs of Inl e \<Rightarrow> Inl e | Inr ys \<Rightarrow> Inr (y # ys)))"

text \<open>\<open>cursor.execute(sql)\<close> and \<open>[row[0] for row in cursor.fetchall()]\<close>.\<close>

definition first_column :: "database \<Rightarrow> str \<Rightarrow> exn + cell list" where
  "first_column db sql =
     (case db sql of Inl e \<Rightarrow> Inl e | Inr rows \<Rightarrow> collect (\<lambda>r. item r 0) rows)"

subsection \<open>check\_database\_integrity\<close>

text \<open>The body of the \<open>try\<close>, from after \<open>connect\<close> up to \<open>conn.close()\<close>.\<close>

definition integrity_try :: "database \<Rightarrow> exn + cell" where
  "integrity_try db =
     (case db integrity_sql of Inl e \<Rightarrow> Inl e | Inr rows \<Rightarrow> fetchone0 rows)"

text \<open>
  \<open>conn.close()\<close> is the last statement of the \<open>try\<close> body: it runs when nothing before it
  raised. The handler returns the wrapped message and closes nothing.
\<close>

definition check_database_integrity :: "'h env \<Rightarrow> state \<Rightarrow> path \<Rightarrow> cell \<times> state" where
  "check_database_integrity env st db_path =
     (case sqlite_connect env db_path of
        Inl e \<Rightarrow> (CText (error_prefix @ message e), st)
      | Inr db \<Rightarrow>
          (case integrity_try db of
             Inl e \<Rightarrow> (CText (error_prefix @ message e), connect_st db_path st)
           | Inr result \<Rightarrow> (result, close_st db_path (connect_st db_path st))))"

subsection \<open>get\_database\_info\<close>

definition column_of :: "row \<Rightarrow> exn + column_info" where
  "column_of col =
     (if length col < 6 then Inl index_error
      else Inr \<lparr>c_id = col ! 0, c_name = col ! 1, c_type = col ! 2,
                c_not_null = col ! 3, c_default = col ! 4, c_pk = col ! 5\<rparr>)"

text \<open>
  The inner \<open>try\<close> of the loop over the tables: one table's entry. A statement has no
  effect on the database, so the place of the loop among the catalogue queries does not
  show in the result.
\<close>

definition reflect_table :: "database \<Rightarrow> cell \<Rightarrow> table_info" where
  "reflect_table db table =
     (case db (count_sql (py_str table)) of
        Inl e \<Rightarrow> TableError (message e)
      | Inr rows \<Rightarrow>
     (case fetchone0 rows of
        Inl e \<Rightarrow> TableError (message e)
      | Inr n \<Rightarrow>
     (case db (table_info_sql (py_str table)) of
        Inl e \<Rightarrow> TableError (message e)
      | Inr cols \<Rightarrow>
     (case collect column_of cols of
        Inl e \<Rightarrow> TableError (message e)
      | Inr cs \<Rightarrow> TableInfo n cs))))"

fun reflect_tables ::
  "database \<Rightarrow> cell list \<Rightarrow> (cell \<times> table_info) list \<Rightarrow> (cell \<times> table_info) list" where
  "reflect_tables db [] info = info"
| "reflect_tables db (t # ts) info =
     reflect_tables db ts (AList.update t (reflect_table db t) info)"

definition database_info_try :: "database \<Rightarrow> exn + database_info" where
  "database_info_try db =
     (case db version_sql of
        Inl e \<Rightarrow> Inl e
      | Inr vrows \<Rightarrow>
     (case fetchone0 vrows of
        Inl e \<Rightarrow> Inl e
      | Inr v \<Rightarrow>
     (case first_column db (master_sql ''table'') of
        Inl e \<Rightarrow> Inl e
      | Inr ts \<Rightarrow>
     (case first_column db (master_sql ''index'') of
        Inl e \<Rightarrow> Inl e
      | Inr ixs \<Rightarrow>
     (case first_column db (master_sql ''trigger'') of
        Inl e \<Rightarrow> Inl e
      | Inr trs \<Rightarrow>
          Inr \<lparr>sqlite_version = v, tables_count = length ts, tables = ts,
               tables_info = reflect_tables db ts [],
               indexes = ixs, triggers = trs\<rparr>)))))"

definition get_database_info :: "'h env \<Rightarrow> state \<Rightarrow> path \<Rightarrow> db_info_result \<times> state" where
  "get_database_info env st db_path =
     (case sqlite_connect env db_path of
        Inl e \<Rightarrow> (DbInfoError (message e), st)
      | Inr db \<Rightarrow>
          (case database_info_try db of
             Inl e \<Rightarrow> (DbInfoError (message e), connect_st db_path st)
           | Inr info \<Rightarrow> (DbInfo info, close_st db_path (connect_st db_path st))))"

subsection \<open>export\_table\_data\<close>

text \<open>
  \<open>writer.writerow(columns); writer.writerows(rows)\<close>: the records are written one after
  the other; a record the writer cannot encode raises and leaves what was written before.
\<close>

fun write_rows :: "'h env \<Rightarrow> row list \<Rightarrow> row list \<Rightarrow> exn option \<times> row list" where
  "write_rows env [] acc = (None, acc)"
| "write_rows env (r # rs) acc =
     (case writerow env r of
        Some e \<Rightarrow> (Some e, acc)
      | None \<Rightarrow> write_rows env rs (acc @ [r]))"

text \<open>\<open>output_path / f"{db_path.stem}_{table_name}.csv"\<close>\<close>

definition csv_path :: "path \<Rightarrow> cell \<Rightarrow> path \<Rightarrow> path" where
  "csv_path db_path table_name output_path =
     joinpath output_path (stem db_path @ ascii ''_'' @ py_str table_name @ ascii ''.csv'')"

text \<open>
  The body of the \<open>try\<close> after \<open>connect\<close>, up to the end of the \<open>with\<close> block. Opening the
  file for writing empties it.
\<close>

definition export_try ::
  "'h env \<Rightarrow> state \<Rightarrow> database \<Rightarrow> path \<Rightarrow> cell \<Rightarrow> path \<Rightarrow> (exn + path) \<times> state" where
  "export_try env st db db_path table_name output_path =
     (case db (select_all_sql (py_str table_name)) of
        Inl e \<Rightarrow> (Inl e, st)
      | Inr rows \<Rightarrow>
     (case db (table_info_sql (py_str table_name)) of
        Inl e \<Rightarrow> (Inl e, st)
      | Inr info \<Rightarrow>
     (case collect (\<lambda>col. item col 1) info of
        Inl e \<Rightarrow> (Inl e, st)
      | Inr cols \<Rightarrow>
     (case open_w env (csv_path db_path table_name output_path) of
        Some e \<Rightarrow> (Inl e, st)
      | None \<Rightarrow>
     (case write_rows env (cols # rows) [] of
        (Some e, recs) \<Rightarrow>
          (Inl e, st\<lparr>written := (written st)
                      (csv_path db_path table_name output_path \<mapsto> CsvFile recs)\<rparr>)
      | (None, recs) \<Rightarrow>
          (Inr (csv_path db_path table_name output_path),
           st\<lparr>written := (written st)
                 (csv_path db_path table_name output_path \<mapsto> CsvFile recs)\<rparr>))))))"

definition export_table_data ::
  "'h env \<Rightarrow> state \<Rightarrow> path \<Rightarrow> cell \<Rightarrow> path \<Rightarrow> str \<times> state" where
  "export_table_data env st db_path table_name output_path =
     (case sqlite_connect env db_path of
        Inl e \<Rightarrow> (export_error_prefix @ message e, st)
      | Inr db \<Rightarrow>
          (case export_try env (connect_st db_path st) db db_path table_name output_path of
             (Inl e, st') \<Rightarrow> (export_error_prefix @ message e, st')
           | (Inr p, st') \<Rightarrow> (path_str p, close_st db_path st')))"

subsection \<open>search\_deleted\_records\<close>

text \<open>The note of the result, a fixed Ukrainian sentence.\<close>

definition deleted_note :: str where
  "deleted_note =
     [1044, 1083, 1103, 32, 1075, 1083, 1080, 1073, 1086, 1082, 1086, 1075, 1086, 32,
      1072, 1085, 1072, 1083, 1110, 1079, 1091, 32, 1074, 1080, 1082, 1086, 1088, 1080,
      1089, 1090, 1086, 1074, 1091, 1081, 1090, 1077, 32, 1089, 1087, 1077, 1094, 1110,
      1072, 1083, 1110, 1079, 1086, 1074, 1072, 1085, 1110, 32, 1110, 1085, 1089, 1090,
      1088, 1091, 1084, 1077, 1085, 1090, 1080]"

definition freelist_try :: "database \<Rightarrow> exn + cell" where
  "freelist_try db =
     (case db freelist_sql of Inl e \<Rightarrow> Inl e | Inr rows \<Rightarrow> fetchone0 rows)"

definition search_deleted_records :: "'h env \<Rightarrow> state \<Rightarrow> path \<Rightarrow> deleted_result \<times> state" where
  "search_deleted_records env st db_path =
     (case sqlite_connect env db_path of
        Inl e \<Rightarrow> (DeletedError (message e), st)
      | Inr db \<Rightarrow>
          (case freelist_try db of
             Inl e \<Rightarrow> (DeletedError (message e), connect_st db_path st)
           | Inr n \<Rightarrow> (Freelist n deleted_note, close_st db_path (connect_st db_path st))))"

subsection \<open>analyze\_database\<close>

text \<open>The loop over the tables of the file: \<open>db_report['exported_tables'][table] = csv_path\<close>.\<close>

fun export_tables ::
  "'h env \<Rightarrow> path \<Rightarrow> path \<Rightarrow> cell list \<Rightarrow> (cell \<times> str) list \<times> state
     \<Rightarrow> (cell \<times> str) list \<times> state" where
  "export_tables env db_path export_dir [] acc = acc"
| "export_tables env db_path export_dir (t # ts) acc =
     (case export_table_data env (snd acc) db_path t export_dir of
        (p, st') \<Rightarrow> export_tables env db_path export_dir ts (AList.update t p (fst acc), st'))"

definition export_dir_of :: "'h env \<Rightarrow> path" where
  "export_dir_of env = joinpath (output_dir env) (ascii ''exported_data'')"

text \<open>
  No statement of the method stands in a \<open>try\<close>: what \<open>get_file_metadata\<close> or \<open>mkdir\<close>
  raise leaves the method. The printed progress lines are not modelled.
\<close>

definition analyze_database :: "'h env \<Rightarrow> state \<Rightarrow> path \<Rightarrow> (exn + db_report) \<times> state" where
  "analyze_database env st db_path =
     (case get_file_metadata env db_path of
        Inl e \<Rightarrow> (Inl e, st)
      | Inr md \<Rightarrow>
     (case check_database_integrity env st db_path of (integ, st1) \<Rightarrow>
     (case get_database_info env st1 db_path of (info, st2) \<Rightarrow>
     (case search_deleted_records env st2 db_path of (del, st3) \<Rightarrow>
     (case info of
        DbInfoError msg \<Rightarrow>
          (Inr \<lparr>r_metadata = md, r_integrity = integ, r_database_info = info,
                r_deleted_records = del, r_exported_tables = None\<rparr>, st3)
      | DbInfo di \<Rightarrow>
          (case mkdir env (export_dir_of env) of
             Some e \<Rightarrow> (Inl e, st3)
           | None \<Rightarrow>
               (case export_tables env db_path (export_dir_of env) (tables di) ([], st3) of
                  (ex, st4) \<Rightarrow>
                    (Inr \<lparr>r_metadata = md, r_integrity = integ, r_database_info = info,
                          r_deleted_records = del, r_exported_tables = Some ex\<rparr>, st4))))))))"

subsection \<open>find\_sqlitedb\_files\<close>

text \<open>
  The four patterns are \<open>*\<close> followed by a literal suffix: a name matches when it ends with
  the suffix (case-sensitive, as on POSIX).
\<close>

definition patterns :: "str list" where
  "patterns = [ascii ''.sqlitedb'', ascii ''.sqlite'', ascii ''.db'', ascii ''.sqlite3'']"

definition fnmatch :: "str \<Rightarrow> str \<Rightarrow> bool" where
  "fnmatch name sfx = suffix sfx name"

text \<open>
  \<open>p.rglob(pattern)\<close>: the entries of \<open>p\<close> whose name matches, files and directories
  alike, then those of each subdirectory, recursively, in scan order.
\<close>

fun rglob :: "str \<Rightarrow> path \<Rightarrow> (str \<times> node) list \<Rightarrow> path list"
  and rglob_below :: "str \<Rightarrow> path \<Rightarrow> (str \<times> node) list \<Rightarrow> path list" where
  "rglob sfx p es =
     map (child p) (filter (\<lambda>n. fnmatch n sfx) (map fst es)) @ rglob_below sfx p es"
| "rglob_below sfx p [] = []"
| "rglob_below sfx p ((n, FileNode) # es) = rglob_below sfx p es"
| "rglob_below sfx p ((n, DirNode ds) # es) = rglob sfx (child p n) ds @ rglob_below sfx p es"

definition find_sqlitedb_files :: "'h env \<Rightarrow> path list" where
  "find_sqlitedb_files env =
     concat (map (\<lambda>sfx. rglob sfx (directory_path env) (tree env)) patterns)"

text \<open>
  A tree as a file system has it: the names of a directory are distinct path components
  (\<open>..\<close> is no entry of a scan).
\<close>

fun wf_tree :: "(str \<times> node) list \<Rightarrow> bool"
  and wf_node :: "node \<Rightarrow> bool" where
  "wf_tree [] = True"
| "wf_tree ((n, nd) # es) =
     (wf_part n \<and> n \<noteq> [46, 46] \<and> n \<notin> fst ` set es \<and> wf_node nd \<and> wf_tree es)"
| "wf_node FileNode = True"
| "wf_node (DirNode ds) = wf_tree ds"

subsection \<open>generate\_report\<close>

definition text_report_path :: "'h env \<Rightarrow> path" where
  "text_report_path env =
     joinpath (output_dir env) (ascii ''text_report_'' @ now_text_stamp env @ ascii ''.txt'')"

definition json_report_path :: "'h env \<Rightarrow> path" where
  "json_report_path env =
     joinpath (output_dir env) (ascii ''forensic_report_'' @ now_json_stamp env @ ascii ''.json'')"

definition generate_text_report :: "'h env \<Rightarrow> state \<Rightarrow> full_report \<Rightarrow> exn option \<times> state" where
  "generate_text_report env st report =
     (case write_report env (text_report_path env) of
        Some e \<Rightarrow> (Some e, st)
      | None \<Rightarrow> (None, st\<lparr>written := (written st)(text_report_path env \<mapsto> TextFile report)\<rparr>))"

text \<open>
  The loop over the files found: the \<open>try\<close> around \<open>analyze_database\<close> turns an exception
  into the file's entry.
\<close>

fun analyze_files ::
  "'h env \<Rightarrow> path list \<Rightarrow> (str \<times> db_entry) list \<times> state \<Rightarrow> (str \<times> db_entry) list \<times> state" where
  "analyze_files env [] acc = acc"
| "analyze_files env (db_file # fs) acc =
     (case analyze_database env (snd acc) db_file of
        (Inr db_rep, st') \<Rightarrow>
          analyze_files env fs (AList.update (path_str db_file) (Analysed db_rep) (fst acc), st')
      | (Inl e, st') \<Rightarrow>
          analyze_files env fs (AList.update (path_str db_file) (Failed (message e)) (fst acc), st'))"

text \<open>
  \<open>None\<close> is the bare \<open>return\<close> of the empty run. An exception of the two writes at the
  end leaves the method.
\<close>

definition generate_report :: "'h env \<Rightarrow> state \<Rightarrow> (exn + full_report option) \<times> state" where
  "generate_report env st =
     (let db_files = find_sqlitedb_files env in
      if db_files = [] then (Inr None, st)
      else
        (case analyze_files env db_files ([], st) of
           (dbs, st1) \<Rightarrow>
             (let rep = \<lparr>analysis_date = now_analysis_date env,
                         directory = path_str (directory_path env),
                         output_directory = path_str (resolve env (output_dir env)),
                         total_files = length db_files,
                         databases = dbs\<rparr>
              in case write_report env (json_report_path env) of
                   Some e \<Rightarrow> (Inl e, st1)
                 | None \<Rightarrow>
                     (case generate_text_report env
                             (st1\<lparr>written := (written st1)(json_report_path env \<mapsto> JsonFile rep)\<rparr>)
                             rep of
                        (Some e, st2) \<Rightarrow> (Inl e, st2)
                      | (None, st2) \<Rightarrow> (Inr (Some rep), st2)))))"

subsection \<open>Notions used to state the properties\<close>

text \<open>A returned value that is a string starting with the error wrapper.\<close>

definition error_wrapped :: "cell \<Rightarrow> bool" where
  "error_wrapped r = (case r of CText s \<Rightarrow> prefix error_prefix s | _ \<Rightarrow> False)"

text \<open>
  What the engine answers to the integrity check of the file at \<open>p\<close>: an exception (of
  \<open>connect\<close>, of the statement, or of reading its first row), or its first value.
\<close>

definition engine_verdict :: "'h env \<Rightarrow> path \<Rightarrow> exn + cell" where
  "engine_verdict env p =
     (case sqlite_connect env p of Inl e \<Rightarrow> Inl e | Inr db \<Rightarrow> integrity_try db)"

text \<open>
  The engine counts what it selects: where \<open>SELECT *\<close> over a \<open>FROM\<close> clause gives rows,
  \<open>SELECT COUNT(*)\<close> over the same clause gives their number, in one row.
\<close>

definition counts_rows :: "database \<Rightarrow> str \<Rightarrow> bool" where
  "counts_rows db t =
     (\<forall>rows. db (select_all_sql t) = Inr rows \<longrightarrow>
        db (count_sql t) = Inr [[CInt (int (length rows))]])"

text \<open>
  The file can be opened as a database: \<open>connect\<close> succeeds and the engine reads the
  catalogue of its tables.
\<close>

definition opens_as_database :: "'h env \<Rightarrow> path \<Rightarrow> bool" where
  "opens_as_database env p =
     (case sqlite_connect env p of
        Inl e \<Rightarrow> False
      | Inr db \<Rightarrow> (case db (master_sql ''table'') of Inl e \<Rightarrow> False | Inr rows \<Rightarrow> True))"

text \<open>
  The verdict as the specification words it: the engine's own answer (\<open>ok\<close> or the
  description of an anomaly), or else an error-wrapped string for a file that could not be
  opened as a database.
\<close>

definition verdict_as_claimed :: "'h env \<Rightarrow> state \<Rightarrow> path \<Rightarrow> bool" where
  "verdict_as_claimed env st p =
     (let v = fst (check_database_integrity env st p) in
      (engine_verdict env p = Inr v \<and> \<not> error_wrapped v)
      \<or> (error_wrapped v \<and> \<not> opens_as_database env p))"

text \<open>
  Reading the file for a digest raises \<open>e\<close>: opening it does, or a read call that the loop
  reaches does (the call after \<open>k\<close> chunks is reached when the first \<open>k - 1\<close> chunks do not
  exhaust the file).
\<close>

definition read_fails :: "'h env \<Rightarrow> path \<Rightarrow> exn \<Rightarrow> bool" where
  "read_fails env q e =
     (case open_rb env q of
        Inl e0 \<Rightarrow> e0 = e
      | Inr f \<Rightarrow>
          (case fault f of
             None \<Rightarrow> False
           | Some (k, e0) \<Rightarrow> e0 = e \<and> (k = 0 \<or> (k - 1) * 4096 < length (data f))))"

text \<open>The entry that the loop of generate\_report makes of an analysis.\<close>

definition entry_of :: "(exn + db_report) \<times> state \<Rightarrow> db_entry" where
  "entry_of r = (case fst r of Inl e \<Rightarrow> Failed (message e) | Inr rep \<Rightarrow> Analysed rep)"

subsection \<open>A small world to evaluate the program in\<close>

text \<open>
  A digest that only counts octets, a database with one table \<open>users(id, name)\<close>, a file
  that is no database, and a tree with two files of the same name:
  \<open>evidence/a.db\<close>, \<open>evidence/x/a.db\<close>, \<open>evidence/x/notes.txt\<close>, \<open>evidence/bad.sqlite\<close>.
  \<open>evidence/bad.sqlite\<close> has vanished by the time it is analysed (\<open>stat\<close> fails on it);
  \<open>evidence/locked.db\<close> can be inspected and opened, but its second read fails.
  Two more databases, put in the place of every file when needed: one that opens and
  lists its table but whose integrity check raises, and one whose damaged index makes
  \<open>COUNT(*)\<close> answer 0 for a table of three rows.
\<close>

definition toy_digest :: "nat digest" where
  "toy_digest =
     \<lparr>h_init = 0,
      h_update = (\<lambda>h bs. h + length bs),
      h_hexdigest = (\<lambda>h. Inr [if h mod 16 < 10 then 48 + h mod 16 else 87 + h mod 16])\<rparr>"

definition users_columns :: "row list" where
  "users_columns =
     [[CInt 0, CText (ascii ''id''), CText (ascii ''INTEGER''), CInt 0, CNull, CInt 1],
      [CInt 1, CText (ascii ''name''), CText (ascii ''TEXT''), CInt 0, CNull, CInt 0]]"

definition users_db :: "row list \<Rightarrow> database" where
  "users_db rows sql =
     (if sql = integrity_sql then Inr [[CText (ascii ''ok'')]]
      else if sql = version_sql then Inr [[CText (ascii ''3.45.1'')]]
      else if sql = master_sql ''table'' then Inr [[CText (ascii ''users'')]]
      else if sql = master_sql ''index'' then Inr []
      else if sql = master_sql ''trigger'' then Inr []
      else if sql = count_sql (ascii ''users'') then Inr [[CInt (int (length rows))]]
      else if sql = table_info_sql (ascii ''users'') then Inr users_columns
      else if sql = select_all_sql (ascii ''users'') then Inr rows
      else if sql = freelist_sql then Inr [[CInt 0]]
      else Inl (Exception (ascii ''syntax error'')))"

definition three_rows :: "row list" where
  "three_rows =
     [[CInt 1, CText (ascii ''ann'')], [CInt 2, CText (ascii ''bob'')],
      [CInt 3, CText (ascii ''eve'')]]"

definition one_row :: "row list" where
  "one_row = [[CInt 7, CText (ascii ''zoe'')]]"

definition garbage_db :: database where
  "garbage_db sql = Inl (Exception (ascii ''file is not a database''))"

definition evidence :: path where
  "evidence = Path False [ascii ''evidence'']"

definition file_a :: path where
  "file_a = Path False [ascii ''evidence'', ascii ''a.db'']"

definition file_xa :: path where
  "file_xa = Path False [ascii ''evidence'', ascii ''x'', ascii ''a.db'']"

definition file_bad :: path where
  "file_bad = Path False [ascii ''evidence'', ascii ''bad.sqlite'']"

definition file_locked :: path where
  "file_locked = Path False [ascii ''evidence'', ascii ''locked.db'']"

definition demo_tree :: "(str \<times> node) list" where
  "demo_tree =
     [(ascii ''a.db'', FileNode),
      (ascii ''x'', DirNode [(ascii ''a.db'', FileNode), (ascii ''notes.txt'', FileNode)]),
      (ascii ''bad.sqlite'', FileNode)]"

definition demo_env :: "nat env" where
  "demo_env =
     \<lparr>directory_path = evidence,
      output_dir = Path True [ascii ''out''],
      tree = demo_tree,
      hashlib_new = (\<lambda>t. if t = ascii ''md5'' \<or> t = ascii ''sha1'' \<or> t = ascii ''sha256''
                          then Some toy_digest else None),
      open_rb = (\<lambda>p. if p = file_a then Inr (File (replicate 5000 1) None)
                      else if p = file_xa then Inr (File [1, 2, 3] None)
                      else if p = file_locked
                        then Inr (File (replicate 5000 1)
                                    (Some (1, Exception (ascii ''Input/output error''))))
                      else Inl (Exception (ascii ''Permission denied''))),
      stat = (\<lambda>p. if p = file_bad then Inl (Exception (ascii ''No such file or directory''))
                   else Inr \<lparr>st_size = 5000, st_ctime = 0, st_mtime = 0, st_atime = 0\<rparr>),
      fromtimestamp = (\<lambda>t. Inr (ascii ''1970-01-01 00:00:00'')),
      round_mb = (\<lambda>n. 0),
      sqlite_connect = (\<lambda>p. if p = file_a then Inr (users_db three_rows)
                             else if p = file_xa then Inr (users_db one_row)
                             else Inr garbage_db),
      mkdir = (\<lambda>p. None),
      open_w = (\<lambda>p. None),
      write_report = (\<lambda>p. None),
      writerow = (\<lambda>r. None),
      resolve = (\<lambda>p. p),
      now_analysis_date = ascii ''2025-11-07 12:00:00'',
      now_json_stamp = ascii ''20251107_120001'',
      now_text_stamp = ascii ''20251107_120002''\<rparr>"

definition corrupt_db :: database where
  "corrupt_db sql =
     (if sql = integrity_sql then Inl (Exception (ascii ''database disk image is malformed''))
      else users_db three_rows sql)"

definition corrupt_env :: "nat env" where
  "corrupt_env = demo_env\<lparr>sqlite_connect := (\<lambda>p. Inr corrupt_db)\<rparr>"

definition damaged_db :: database where
  "damaged_db sql =
     (if sql = count_sql (ascii ''users'') then Inr [[CInt 0]]
      else users_db three_rows sql)"

definition damaged_env :: "nat env" where
  "damaged_env = demo_env\<lparr>sqlite_connect := (\<lambda>p. Inr damaged_db)\<rparr>"

definition st0 :: state where
  "st0 = \<lparr>conns = [], written = (\<lambda>p. None)\<rparr>"

section \<open>Properties\<close>

subsection \<open>Hashing\<close>

lemma read_loop_no_fault:
  assumes "streaming d"
  shows "read_loop d h rest None = Inr (h_update d h rest)"
proof (induction "length rest" arbitrary: h rest rule: less_induct)
  case less
  show ?case
  proof (cases "rest = []")
    case True
    then show ?thesis using assms
      by (subst read_loop.simps) (simp add: fault_now_def streaming_def)
  next
    case False
    then have "length (drop 4096 rest) < length rest" by simp
    from less[OF this]
    have "read_loop d (h_update d h (take 4096 rest)) (drop 4096 rest) None
            = Inr (h_update d (h_update d h (take 4096 rest)) (drop 4096 rest))" .
    also have "h_update d (h_update d h (take 4096 rest)) (drop 4096 rest) = h_update d h rest"
      using assms by (simp add: streaming_def)
    finally show ?thesis using False
      by (subst read_loop.simps) (simp add: fault_now_def tick_def)
  qed
qed

lemma streaming_toy: "streaming toy_digest"
  by (simp add: streaming_def toy_digest_def)

lemma hex_digests_toy: "hex_digests toy_digest"
  by (auto simp: hex_digests_def toy_digest_def lowercase_hex_def)

lemma lowercase_hex_not_wrapped: "lowercase_hex s \<Longrightarrow> \<not> prefix error_prefix s"
  by (cases s) (auto simp: lowercase_hex_def error_prefix_def)

text \<open>
  Claim C5. For a digest object that behaves as \<open>hashlib\<close> documents, the loop over
  4096-octet chunks returns what one \<open>update\<close> with the whole contents returns, for every
  contents of a file that reads without fault; and two files of the same contents get
  the same result.
\<close>

theorem calculate_hash_chunked_eq_whole:
  assumes "hashlib_new env hash_type = Some d"
    and "streaming d"
    and "open_rb env filepath = Inr (File contents None)"
  shows "calculate_hash env filepath hash_type = whole_file_hash env filepath hash_type
         \<and> (\<forall>q. open_rb env q = Inr (File contents None) \<longrightarrow>
                calculate_hash env q hash_type = calculate_hash env filepath hash_type)"
  using assms
  by (simp add: calculate_hash_def whole_file_hash_def read_all_def fault_now_def
      read_loop_no_fault)

text \<open>The 5000 octets of \<open>evidence/a.db\<close> take two chunks; the counting digest gives \<open>8\<close>.\<close>

theorem calculate_hash_chunked_eq_whole_witness:
  "hashlib_new demo_env (ascii ''md5'') = Some toy_digest
   \<and> open_rb demo_env file_a = Inr (File (replicate 5000 1) None)
   \<and> calculate_hash demo_env file_a (ascii ''md5'') = whole_file_hash demo_env file_a (ascii ''md5'')
   \<and> whole_file_hash demo_env file_a (ascii ''md5'') = Inr (ascii ''8'')"
proof -
  have h: "hashlib_new demo_env (ascii ''md5'') = Some toy_digest"
    by (simp add: demo_env_def)
  have o: "open_rb demo_env file_a = Inr (File (replicate 5000 1) None)"
    by (simp add: demo_env_def)
  have w: "whole_file_hash demo_env file_a (ascii ''md5'') = Inr (ascii ''8'')"
    unfolding whole_file_hash_def h o
    by (simp add: read_all_def fault_now_def toy_digest_def ascii_def)
  from calculate_hash_chunked_eq_whole [OF h streaming_toy o] h o w show ?thesis by simp
qed

text \<open>
  Claim C9. A value returned by calculate\_hash is a lowercase hexadecimal digest or starts
  with the error wrapper, and never both: no hexadecimal string starts with the wrapper.
\<close>

theorem calculate_hash_digest_or_error:
  assumes "hashlib_new env hash_type = Some d"
    and "hex_digests d"
    and "calculate_hash env filepath hash_type = Inr r"
  shows "(lowercase_hex r \<and> \<not> prefix error_prefix r)
         \<or> (prefix error_prefix r \<and> \<not> lowercase_hex r)"
  using assms lowercase_hex_not_wrapped
  by (auto simp: calculate_hash_def hex_digests_def split: sum.splits)

text \<open>\<open>evidence/bad.sqlite\<close> cannot be opened for reading: the result is the wrapped message.\<close>

theorem calculate_hash_digest_or_error_witness:
  "calculate_hash demo_env file_bad (ascii ''sha1'')
     = Inr (error_prefix @ ascii ''Permission denied'')
   \<and> prefix error_prefix (error_prefix @ ascii ''Permission denied'')
   \<and> \<not> lowercase_hex (error_prefix @ ascii ''Permission denied'')"
proof -
  have h: "hashlib_new demo_env (ascii ''sha1'') = Some toy_digest"
    by (simp add: demo_env_def ascii_def)
  have o: "open_rb demo_env file_bad = Inl (Exception (ascii ''Permission denied''))"
    by (simp add: demo_env_def file_bad_def file_a_def file_xa_def file_locked_def ascii_def)
  have c: "calculate_hash demo_env file_bad (ascii ''sha1'')
             = Inr (error_prefix @ ascii ''Permission denied'')"
    unfolding calculate_hash_def h o by simp
  from calculate_hash_digest_or_error [OF h hex_digests_toy c] c show ?thesis
    by (auto simp: lowercase_hex_def error_prefix_def)
qed

subsection \<open>The empty run\<close>

text \<open>
  Claim C10. When no file is found, generate\_report returns \<open>None\<close> and leaves the state as
  it was: no report is built, no file is written.
\<close>

theorem generate_report_empty_run:
  assumes "find_sqlitedb_files env = []"
  shows "generate_report env st = (Inr None, st)"
  using assms by (simp add: generate_report_def)

text \<open>An empty directory.\<close>

theorem generate_report_empty_run_witness:
  "find_sqlitedb_files (demo_env\<lparr>tree := []\<rparr>) = []
   \<and> generate_report (demo_env\<lparr>tree := []\<rparr>) st0 = (Inr None, st0)
   \<and> written st0 = (\<lambda>p. None)"
proof -
  have f: "find_sqlitedb_files (demo_env\<lparr>tree := []\<rparr>) = []"
    by (simp add: find_sqlitedb_files_def patterns_def)
  from generate_report_empty_run [OF f] f show ?thesis by (simp add: st0_def)
qed

subsection \<open>The small world, evaluated\<close>

lemma users_db_integrity: "users_db rows integrity_sql = Inr [[CText (ascii ''ok'')]]"
  by (simp add: users_db_def)

lemma users_db_select: "users_db rows (select_all_sql (ascii ''users'')) = Inr rows"
  by (simp add: users_db_def integrity_sql_def version_sql_def master_sql_def count_sql_def
      table_info_sql_def select_all_sql_def quoted_def ascii_def)

lemma users_db_count: "users_db rows (count_sql (ascii ''users'')) = Inr [[CInt (int (length rows))]]"
  by (simp add: users_db_def integrity_sql_def version_sql_def master_sql_def count_sql_def
      table_info_sql_def select_all_sql_def quoted_def ascii_def)

lemma users_db_table_info: "users_db rows (table_info_sql (ascii ''users'')) = Inr users_columns"
  by (simp add: users_db_def integrity_sql_def version_sql_def master_sql_def count_sql_def
      table_info_sql_def select_all_sql_def quoted_def ascii_def)

lemma users_db_version: "users_db rows version_sql = Inr [[CText (ascii ''3.45.1'')]]"
  by (simp add: users_db_def integrity_sql_def version_sql_def ascii_def)

lemma users_db_master_table: "users_db rows (master_sql ''table'') = Inr [[CText (ascii ''users'')]]"
  by (simp add: users_db_def integrity_sql_def version_sql_def master_sql_def quoted_def ascii_def)

lemma users_db_master_index: "users_db rows (master_sql ''index'') = Inr []"
  by (simp add: users_db_def integrity_sql_def version_sql_def master_sql_def quoted_def ascii_def)

lemma users_db_master_trigger: "users_db rows (master_sql ''trigger'') = Inr []"
  by (simp add: users_db_def integrity_sql_def version_sql_def master_sql_def quoted_def ascii_def)

lemmas users_db_simps =
  users_db_integrity users_db_select users_db_count users_db_table_info users_db_version
  users_db_master_table users_db_master_index users_db_master_trigger

lemma connect_a: "sqlite_connect demo_env file_a = Inr (users_db three_rows)"
  by (simp add: demo_env_def)

lemma connect_xa: "sqlite_connect demo_env file_xa = Inr (users_db one_row)"
  by (simp add: demo_env_def file_a_def file_xa_def ascii_def)

lemma connect_bad: "sqlite_connect demo_env file_bad = Inr garbage_db"
  by (simp add: demo_env_def file_a_def file_xa_def file_bad_def ascii_def)

lemma csv_path_a:
  "csv_path file_a (CText (ascii ''users'')) (export_dir_of demo_env)
     = Path True [ascii ''out'', ascii ''exported_data'', ascii ''a_users.csv'']"
  by (simp add: csv_path_def export_dir_of_def demo_env_def joinpath_def file_a_def stem_def
      path_name_def rfind_dot_def py_str_def sep_def ascii_def)

lemma csv_path_xa:
  "csv_path file_xa (CText (ascii ''users'')) (export_dir_of demo_env)
     = Path True [ascii ''out'', ascii ''exported_data'', ascii ''a_users.csv'']"
  by (simp add: csv_path_def export_dir_of_def demo_env_def joinpath_def file_xa_def stem_def
      path_name_def rfind_dot_def py_str_def sep_def ascii_def)

lemma close_connect: "close_st p (connect_st p st) = st"
  by (simp add: close_st_def connect_st_def)

lemma demo_writes:
  "open_w demo_env p = None" "writerow demo_env r = None" "write_report demo_env p = None"
  by (simp_all add: demo_env_def)

lemma write_rows_demo: "write_rows demo_env rs acc = (None, acc @ rs)"
  by (induction rs arbitrary: acc) (simp_all add: demo_writes)

lemma users_header: "collect (\<lambda>col. item col 1) users_columns = Inr [CText (ascii ''id''), CText (ascii ''name'')]"
  by (simp add: users_columns_def item_def)

lemma export_try_demo:
  "export_try demo_env st (users_db rows) db_path (CText (ascii ''users'')) out
     = (Inr (csv_path db_path (CText (ascii ''users'')) out),
        st\<lparr>written := (written st)(csv_path db_path (CText (ascii ''users'')) out \<mapsto>
              CsvFile ([CText (ascii ''id''), CText (ascii ''name'')] # rows))\<rparr>)"
  by (simp add: export_try_def py_str_def users_db_simps users_header demo_writes write_rows_demo
      del: One_nat_def)

subsection \<open>The verdict of the integrity check\<close>

text \<open>
  Claim C2, amended. When the engine answers the check with the single row \<open>ok\<close>, the
  method returns exactly \<open>ok\<close>. Whatever it returns is either the first value of the
  engine's answer, unchanged, or the wrapper followed by the message of whatever exception
  \<open>connect\<close>, the statement or the fetch raised: of a file that is no database, and
  equally of a database that opens but on which the check itself fails, or of a locked
  one. The wrapped form is told apart from the engine's descriptions by the wrapper, the
  engine's own descriptions not starting with it (they are English text); it does not
  tell a file that is no database from a damaged database.
\<close>

theorem check_database_integrity_verdict:
  assumes "\<forall>db c r rows. sqlite_connect env db_path = Inr db
              \<and> db integrity_sql = Inr ((c # r) # rows) \<longrightarrow> \<not> error_wrapped c"
  shows "(\<forall>db. sqlite_connect env db_path = Inr db
              \<and> db integrity_sql = Inr [[CText (ascii ''ok'')]]
            \<longrightarrow> fst (check_database_integrity env st db_path) = CText (ascii ''ok''))
       \<and> ((\<exists>db c r rows. sqlite_connect env db_path = Inr db
               \<and> db integrity_sql = Inr ((c # r) # rows)
               \<and> fst (check_database_integrity env st db_path) = c
               \<and> \<not> error_wrapped (fst (check_database_integrity env st db_path)))
           \<or> (\<exists>e. engine_verdict env db_path = Inl e
               \<and> fst (check_database_integrity env st db_path) = CText (error_prefix @ message e)
               \<and> error_wrapped (fst (check_database_integrity env st db_path))))"
proof (cases "sqlite_connect env db_path")
  case (Inl e)
  then show ?thesis
    by (simp add: check_database_integrity_def engine_verdict_def error_wrapped_def)
next
  case (Inr db)
  show ?thesis
  proof (cases "db integrity_sql")
    case (Inl e)
    with Inr show ?thesis
      by (simp add: check_database_integrity_def engine_verdict_def integrity_try_def
          error_wrapped_def)
  next
    case rows: (Inr rows)
    show ?thesis
    proof (cases rows)
      case Nil
      with Inr rows show ?thesis
        by (simp add: check_database_integrity_def engine_verdict_def integrity_try_def
            fetchone0_def error_wrapped_def)
    next
      case (Cons r rs)
      show ?thesis
      proof (cases r)
        case Nil
        with Inr rows Cons show ?thesis
          by (simp add: check_database_integrity_def engine_verdict_def integrity_try_def
              fetchone0_def item_def error_wrapped_def)
      next
        case (Cons c cs)
        with assms Inr rows \<open>rows = r # rs\<close> have "\<not> error_wrapped c" by blast
        with Inr rows \<open>rows = r # rs\<close> Cons show ?thesis
          by (simp add: check_database_integrity_def engine_verdict_def integrity_try_def
              fetchone0_def item_def)
      qed
    qed
  qed
qed

text \<open>The well-formed database \<open>evidence/a.db\<close>.\<close>

theorem check_database_integrity_verdict_witness:
  "fst (check_database_integrity demo_env st0 file_a) = CText (ascii ''ok'')
   \<and> sqlite_connect demo_env file_a = Inr (users_db three_rows)
   \<and> users_db three_rows integrity_sql = Inr [[CText (ascii ''ok'')]]
   \<and> \<not> error_wrapped (CText (ascii ''ok''))"
proof -
  have nw: "\<not> error_wrapped (CText (ascii ''ok''))"
    by (simp add: error_wrapped_def error_prefix_def ascii_def)
  have "\<forall>db c r rows. sqlite_connect demo_env file_a = Inr db
          \<and> db integrity_sql = Inr ((c # r) # rows) \<longrightarrow> \<not> error_wrapped c"
    using nw by (auto simp: connect_a users_db_integrity)
  from check_database_integrity_verdict [OF this, of st0] connect_a users_db_integrity nw
  show ?thesis by blast
qed

text \<open>
  Claim C2 as stated fails: a database that opens and lists its table, but whose
  integrity check raises \<open>database disk image is malformed\<close>, gets the error-wrapped form
  too, though it can be opened as a database.
\<close>

lemma corrupt_db_simps:
  "corrupt_db integrity_sql = Inl (Exception (ascii ''database disk image is malformed''))"
  "corrupt_db (master_sql ''table'') = Inr [[CText (ascii ''users'')]]"
  by (simp_all add: corrupt_db_def users_db_def integrity_sql_def version_sql_def master_sql_def
      quoted_def ascii_def)

theorem check_database_integrity_corrupt_counterexample:
  "opens_as_database corrupt_env file_a
   \<and> fst (check_database_integrity corrupt_env st0 file_a)
       = CText (error_prefix @ ascii ''database disk image is malformed'')
   \<and> \<not> verdict_as_claimed corrupt_env st0 file_a"
proof -
  have c: "sqlite_connect corrupt_env file_a = Inr corrupt_db"
    by (simp add: corrupt_env_def)
  have o: "opens_as_database corrupt_env file_a"
    by (simp add: opens_as_database_def c corrupt_db_simps)
  have v: "fst (check_database_integrity corrupt_env st0 file_a)
             = CText (error_prefix @ ascii ''database disk image is malformed'')"
    by (simp add: check_database_integrity_def c integrity_try_def corrupt_db_simps)
  have e: "engine_verdict corrupt_env file_a
             = Inl (Exception (ascii ''database disk image is malformed''))"
    by (simp add: engine_verdict_def c integrity_try_def corrupt_db_simps)
  from o v e show ?thesis
    by (simp add: verdict_as_claimed_def)
qed

subsection \<open>Connections on the error paths\<close>

text \<open>
  Claim C4 asks that every operation closes its connection on every path. On
  \<open>evidence/bad.sqlite\<close>, which is no database, \<open>connect\<close> succeeds and the first statement
  raises: each of the four operations returns with its connection still open. On the
  database \<open>evidence/a.db\<close> the check closes it.
\<close>

theorem connection_left_open_on_error:
  "conns st0 = []
   \<and> conns (snd (check_database_integrity demo_env st0 file_bad)) = [file_bad]
   \<and> conns (snd (get_database_info demo_env st0 file_bad)) = [file_bad]
   \<and> conns (snd (search_deleted_records demo_env st0 file_bad)) = [file_bad]
   \<and> conns (snd (export_table_data demo_env st0 file_bad (CText (ascii ''users''))
                    (export_dir_of demo_env))) = [file_bad]
   \<and> conns (snd (check_database_integrity demo_env st0 file_a)) = []"
proof -
  have "conns (snd (check_database_integrity demo_env st0 file_a)) = []"
    by (simp add: check_database_integrity_def connect_a integrity_try_def users_db_integrity
        fetchone0_def item_def close_connect st0_def)
  then show ?thesis
    by (simp add: st0_def check_database_integrity_def get_database_info_def
        search_deleted_records_def export_table_data_def connect_bad integrity_try_def
        database_info_try_def freelist_try_def export_try_def garbage_db_def connect_st_def)
qed

subsection \<open>Two databases of the same stem\<close>

text \<open>
  Claim C3 asks for distinct export paths for distinct source files. \<open>evidence/a.db\<close> and
  \<open>evidence/x/a.db\<close> both hold a table \<open>users\<close>: the two exports return the same path, and
  the second replaces the three rows of the first by its one row.
\<close>

theorem export_same_stem_collides:
  "file_a \<noteq> file_xa
   \<and> (case export_table_data demo_env st0 file_a (CText (ascii ''users'')) (export_dir_of demo_env) of
        (r1, s1) \<Rightarrow>
      (case export_table_data demo_env s1 file_xa (CText (ascii ''users'')) (export_dir_of demo_env) of
        (r2, s2) \<Rightarrow>
          r1 = r2
          \<and> written s1 (Path True [ascii ''out'', ascii ''exported_data'', ascii ''a_users.csv''])
              = Some (CsvFile ([CText (ascii ''id''), CText (ascii ''name'')] # three_rows))
          \<and> written s2 (Path True [ascii ''out'', ascii ''exported_data'', ascii ''a_users.csv''])
              = Some (CsvFile ([CText (ascii ''id''), CText (ascii ''name'')] # one_row))))"
proof -
  have "file_a \<noteq> file_xa" by (simp add: file_a_def file_xa_def ascii_def)
  then show ?thesis
    by (simp add: export_table_data_def connect_a connect_xa export_try_demo csv_path_a
        csv_path_xa close_st_def connect_st_def)
qed

subsection \<open>The exported file and the reported schema\<close>

lemma write_rows_complete: "write_rows env rs acc = (None, recs) \<Longrightarrow> recs = acc @ rs"
proof (induction rs arbitrary: acc)
  case Nil
  then show ?case by simp
next
  case (Cons r rs)
  from Cons.prems have "write_rows env rs (acc @ [r]) = (None, recs)"
    by (simp split: option.splits)
  from Cons.IH [OF this] show ?case by simp
qed

lemma collect_column_names:
  "collect column_of info = Inr cs \<Longrightarrow> collect (\<lambda>col. item col 1) info = Inr (map c_name cs)"
proof (induction info arbitrary: cs)
  case Nil
  then show ?case by simp
next
  case (Cons col info)
  then show ?case
    by (auto simp: column_of_def item_def split: sum.splits if_splits)
qed

lemma map_of_reflect_tables:
  "map_of (reflect_tables db ts info) t
     = (if t \<in> set ts then Some (reflect_table db t) else map_of info t)"
  by (induction ts arbitrary: info) (simp_all add: update_conv')

lemma reflect_table_ok:
  assumes "reflect_table db t = TableInfo n cs"
  shows "\<exists>rows info. db (count_sql (py_str t)) = Inr rows \<and> fetchone0 rows = Inr n
           \<and> db (table_info_sql (py_str t)) = Inr info \<and> collect column_of info = Inr cs"
  using assms by (auto simp: reflect_table_def split: sum.splits)

text \<open>
  Claim C6, amended. When the body of export\_table\_data runs to its end for a table, the
  file at the returned path holds the header first, which is the column names that
  get\_database\_info reports for the table over the same database, in the same order, and
  then the data rows, which are the rows that \<open>SELECT *\<close> gave. The header is there
  whatever the number of rows. The reported \<open>row_count\<close> is what \<open>SELECT COUNT(*)\<close> gave: it
  is the number of data rows where the engine counts what it selects, which a damaged
  database need not do.
\<close>

theorem export_matches_schema:
  assumes conn: "sqlite_connect env db_path = Inr db"
    and exported: "export_try env (connect_st db_path st) db db_path table_name output_path
                     = (Inr p, st1)"
    and info: "get_database_info env st' db_path = (DbInfo di, st2)"
    and entry: "map_of (tables_info di) table_name = Some (TableInfo n cs)"
  shows "\<exists>rows crows.
           export_table_data env st db_path table_name output_path
             = (path_str p, close_st db_path st1)
           \<and> db (select_all_sql (py_str table_name)) = Inr rows
           \<and> written (close_st db_path st1) p = Some (CsvFile (map c_name cs # rows))
           \<and> db (count_sql (py_str table_name)) = Inr crows
           \<and> fetchone0 crows = Inr n
           \<and> (counts_rows db (py_str table_name) \<longrightarrow> n = CInt (int (length rows)))"
proof -
  from info conn obtain "database_info_try db = Inr di"
    by (auto simp: get_database_info_def split: sum.splits)
  then have "tables_info di = reflect_tables db (tables di) []"
    by (auto simp: database_info_try_def split: sum.splits)
  with entry have "reflect_table db table_name = TableInfo n cs"
    by (simp add: map_of_reflect_tables split: if_splits)
  from reflect_table_ok [OF this] obtain crows tinfo where
    c: "db (count_sql (py_str table_name)) = Inr crows" "fetchone0 crows = Inr n"
    and ti: "db (table_info_sql (py_str table_name)) = Inr tinfo"
    and cols: "collect column_of tinfo = Inr cs"
    by blast
  let ?p = "csv_path db_path table_name output_path"
  let ?s = "connect_st db_path st"
  have names: "collect (\<lambda>col. item col (Suc 0)) tinfo = Inr (map c_name cs)"
    using collect_column_names [OF cols] by simp
  from exported obtain rows where
    sel: "db (select_all_sql (py_str table_name)) = Inr rows"
    by (cases "db (select_all_sql (py_str table_name))") (auto simp: export_try_def)
  have rest: "(case open_w env ?p of
                 Some e \<Rightarrow> (Inl e, ?s)
               | None \<Rightarrow>
                   (case write_rows env (map c_name cs # rows) [] of
                      (Some e, recs) \<Rightarrow> (Inl e, ?s\<lparr>written := (written ?s)(?p \<mapsto> CsvFile recs)\<rparr>)
                    | (None, recs) \<Rightarrow> (Inr ?p, ?s\<lparr>written := (written ?s)(?p \<mapsto> CsvFile recs)\<rparr>)))
              = (Inr p, st1)"
    using exported by (simp add: export_try_def sel ti names)
  then have ow: "open_w env ?p = None"
    by (cases "open_w env ?p") auto
  obtain err recs where wr: "write_rows env (map c_name cs # rows) [] = (err, recs)"
    by (cases "write_rows env (map c_name cs # rows) []") auto
  with rest ow have "err = None" and p: "p = ?p"
    and st1: "st1 = ?s\<lparr>written := (written ?s)(?p \<mapsto> CsvFile recs)\<rparr>"
    by (cases err; simp)+
  with wr have w: "write_rows env (map c_name cs # rows) [] = (None, recs)" by simp
  from write_rows_complete [OF w] have recs: "recs = map c_name cs # rows" by simp
  have "n = CInt (int (length rows))" if "counts_rows db (py_str table_name)"
    using that sel c by (auto simp: counts_rows_def fetchone0_def item_def)
  moreover have "export_table_data env st db_path table_name output_path
                   = (path_str p, close_st db_path st1)"
    by (simp add: export_table_data_def conn exported)
  moreover have "written (close_st db_path st1) p = Some (CsvFile (map c_name cs # rows))"
    by (simp add: st1 p recs close_st_def)
  ultimately show ?thesis using sel c by blast
qed

text \<open>The table \<open>users\<close> of \<open>evidence/a.db\<close>: a header and three rows, \<open>row_count\<close> 3.\<close>

lemma users_reflect:
  "reflect_table (users_db rows) (CText (ascii ''users''))
     = TableInfo (CInt (int (length rows)))
         [\<lparr>c_id = CInt 0, c_name = CText (ascii ''id''), c_type = CText (ascii ''INTEGER''),
           c_not_null = CInt 0, c_default = CNull, c_pk = CInt 1\<rparr>,
          \<lparr>c_id = CInt 1, c_name = CText (ascii ''name''), c_type = CText (ascii ''TEXT''),
           c_not_null = CInt 0, c_default = CNull, c_pk = CInt 0\<rparr>]"
  by (simp add: reflect_table_def py_str_def users_db_simps fetchone0_def item_def
      users_columns_def column_of_def)

lemma users_info:
  "database_info_try (users_db rows)
     = Inr \<lparr>sqlite_version = CText (ascii ''3.45.1''), tables_count = 1,
            tables = [CText (ascii ''users'')],
            tables_info = [(CText (ascii ''users''),
                            reflect_table (users_db rows) (CText (ascii ''users'')))],
            indexes = [], triggers = []\<rparr>"
  by (simp add: database_info_try_def first_column_def users_db_simps fetchone0_def item_def)

theorem export_matches_schema_witness:
  "counts_rows (users_db three_rows) (py_str (CText (ascii ''users'')))
   \<and> export_table_data demo_env st0 file_a (CText (ascii ''users'')) (export_dir_of demo_env)
       = (ascii ''/out/exported_data/a_users.csv'', st0\<lparr>written := (written st0)
            (Path True [ascii ''out'', ascii ''exported_data'', ascii ''a_users.csv''] \<mapsto>
               CsvFile ([CText (ascii ''id''), CText (ascii ''name'')] # three_rows))\<rparr>)
   \<and> length three_rows = 3
   \<and> fst (get_database_info demo_env st0 file_a)
       = DbInfo \<lparr>sqlite_version = CText (ascii ''3.45.1''), tables_count = 1,
            tables = [CText (ascii ''users'')],
            tables_info = [(CText (ascii ''users''),
               TableInfo (CInt 3)
                [\<lparr>c_id = CInt 0, c_name = CText (ascii ''id''), c_type = CText (ascii ''INTEGER''),
                  c_not_null = CInt 0, c_default = CNull, c_pk = CInt 1\<rparr>,
                 \<lparr>c_id = CInt 1, c_name = CText (ascii ''name''), c_type = CText (ascii ''TEXT''),
                  c_not_null = CInt 0, c_default = CNull, c_pk = CInt 0\<rparr>])],
            indexes = [], triggers = []\<rparr>"
proof -
  let ?t = "CText (ascii ''users'')"
  let ?cs = "[\<lparr>c_id = CInt 0, c_name = CText (ascii ''id''), c_type = CText (ascii ''INTEGER''),
                c_not_null = CInt 0, c_default = CNull, c_pk = CInt 1\<rparr>,
              \<lparr>c_id = CInt 1, c_name = CText (ascii ''name''), c_type = CText (ascii ''TEXT''),
                c_not_null = CInt 0, c_default = CNull, c_pk = CInt 0\<rparr>]"
  let ?di = "\<lparr>sqlite_version = CText (ascii ''3.45.1''), tables_count = 1,
              tables = [?t], tables_info = [(?t, TableInfo (CInt 3) ?cs)],
              indexes = [], triggers = []\<rparr>"
  have len: "length three_rows = 3" by (simp add: three_rows_def)
  have engine: "counts_rows (users_db three_rows) (py_str ?t)"
    by (simp add: counts_rows_def py_str_def users_db_simps)
  have info: "get_database_info demo_env st0 file_a = (DbInfo ?di, st0)"
    by (simp add: get_database_info_def connect_a users_info users_reflect close_connect len)
  have entry: "map_of (tables_info ?di) ?t = Some (TableInfo (CInt 3) ?cs)" by simp
  from export_matches_schema [OF connect_a export_try_demo info entry,
      of st0 "export_dir_of demo_env"] engine
  have e: "export_table_data demo_env st0 file_a ?t (export_dir_of demo_env)
          = (path_str (csv_path file_a ?t (export_dir_of demo_env)),
             close_st file_a ((connect_st file_a st0)\<lparr>written := (written (connect_st file_a st0))
               (csv_path file_a ?t (export_dir_of demo_env) \<mapsto>
                  CsvFile ([CText (ascii ''id''), CText (ascii ''name'')] # three_rows))\<rparr>))"
    by blast
  have "path_str (Path True [ascii ''out'', ascii ''exported_data'', ascii ''a_users.csv''])
          = ascii ''/out/exported_data/a_users.csv''"
    by (simp add: path_str_def sep_def ascii_def)
  with e engine info len show ?thesis
    by (simp add: csv_path_a close_st_def connect_st_def st0_def)
qed

text \<open>
  Claim C6 as stated fails on the database with the damaged index: the export succeeds
  and writes the header and three data rows, while the reported \<open>row_count\<close> is 0.
\<close>

lemma damaged_db_simps:
  "damaged_db (select_all_sql (ascii ''users'')) = Inr three_rows"
  "damaged_db (count_sql (ascii ''users'')) = Inr [[CInt 0]]"
  "damaged_db (table_info_sql (ascii ''users'')) = Inr users_columns"
  "damaged_db version_sql = Inr [[CText (ascii ''3.45.1'')]]"
  "damaged_db (master_sql ''table'') = Inr [[CText (ascii ''users'')]]"
  "damaged_db (master_sql ''index'') = Inr []"
  "damaged_db (master_sql ''trigger'') = Inr []"
  by (simp_all add: damaged_db_def users_db_def integrity_sql_def version_sql_def master_sql_def
      count_sql_def table_info_sql_def select_all_sql_def quoted_def ascii_def)

lemma damaged_env_simps:
  "sqlite_connect damaged_env p = Inr damaged_db"
  "open_w damaged_env p = None"
  "writerow damaged_env r = None"
  "export_dir_of damaged_env = export_dir_of demo_env"
  by (simp_all add: damaged_env_def demo_env_def export_dir_of_def)

lemma write_rows_damaged: "write_rows damaged_env rs acc = (None, acc @ rs)"
  by (induction rs arbitrary: acc) (simp_all add: damaged_env_simps)

theorem export_row_count_mismatch_counterexample:
  "export_table_data damaged_env st0 file_a (CText (ascii ''users'')) (export_dir_of damaged_env)
     = (ascii ''/out/exported_data/a_users.csv'', st0\<lparr>written := (written st0)
          (Path True [ascii ''out'', ascii ''exported_data'', ascii ''a_users.csv''] \<mapsto>
             CsvFile ([CText (ascii ''id''), CText (ascii ''name'')] # three_rows))\<rparr>)
   \<and> length three_rows = 3
   \<and> fst (get_database_info damaged_env st0 file_a)
       = DbInfo \<lparr>sqlite_version = CText (ascii ''3.45.1''), tables_count = 1,
            tables = [CText (ascii ''users'')],
            tables_info = [(CText (ascii ''users''),
               TableInfo (CInt 0)
                [\<lparr>c_id = CInt 0, c_name = CText (ascii ''id''), c_type = CText (ascii ''INTEGER''),
                  c_not_null = CInt 0, c_default = CNull, c_pk = CInt 1\<rparr>,
                 \<lparr>c_id = CInt 1, c_name = CText (ascii ''name''), c_type = CText (ascii ''TEXT''),
                  c_not_null = CInt 0, c_default = CNull, c_pk = CInt 0\<rparr>])],
            indexes = [], triggers = []\<rparr>
   \<and> CInt 0 \<noteq> CInt (int (length three_rows))"
proof -
  let ?t = "CText (ascii ''users'')"
  have len: "length three_rows = 3" by (simp add: three_rows_def)
  have x: "export_try damaged_env st damaged_db file_a ?t (export_dir_of demo_env)
             = (Inr (csv_path file_a ?t (export_dir_of demo_env)),
                st\<lparr>written := (written st)(csv_path file_a ?t (export_dir_of demo_env) \<mapsto>
                      CsvFile ([CText (ascii ''id''), CText (ascii ''name'')] # three_rows))\<rparr>)"
    for st
    by (simp add: export_try_def py_str_def damaged_db_simps users_header damaged_env_simps
        write_rows_damaged del: One_nat_def)
  have p: "path_str (Path True [ascii ''out'', ascii ''exported_data'', ascii ''a_users.csv''])
             = ascii ''/out/exported_data/a_users.csv''"
    by (simp add: path_str_def sep_def ascii_def)
  have e: "export_table_data damaged_env st0 file_a ?t (export_dir_of damaged_env)
             = (ascii ''/out/exported_data/a_users.csv'', st0\<lparr>written := (written st0)
                  (Path True [ascii ''out'', ascii ''exported_data'', ascii ''a_users.csv''] \<mapsto>
                     CsvFile ([CText (ascii ''id''), CText (ascii ''name'')] # three_rows))\<rparr>)"
    by (simp add: export_table_data_def damaged_env_simps x csv_path_a p close_st_def
        connect_st_def st0_def)
  have r: "reflect_table damaged_db ?t
             = TableInfo (CInt 0)
                [\<lparr>c_id = CInt 0, c_name = CText (ascii ''id''), c_type = CText (ascii ''INTEGER''),
                  c_not_null = CInt 0, c_default = CNull, c_pk = CInt 1\<rparr>,
                 \<lparr>c_id = CInt 1, c_name = CText (ascii ''name''), c_type = CText (ascii ''TEXT''),
                  c_not_null = CInt 0, c_default = CNull, c_pk = CInt 0\<rparr>]"
    by (simp add: reflect_table_def py_str_def damaged_db_simps fetchone0_def item_def
        users_columns_def column_of_def)
  have i: "fst (get_database_info damaged_env st0 file_a)
             = DbInfo \<lparr>sqlite_version = CText (ascii ''3.45.1''), tables_count = 1,
                  tables = [?t], tables_info = [(?t, reflect_table damaged_db ?t)],
                  indexes = [], triggers = []\<rparr>"
    by (simp add: get_database_info_def damaged_env_simps database_info_try_def first_column_def
        damaged_db_simps fetchone0_def item_def)
  from e i len show ?thesis by (simp add: r)
qed

subsection \<open>The files found\<close>

lemma wf_tree_names: "wf_tree es \<Longrightarrow> distinct (map fst es) \<and> list_all wf_part (map fst es)"
  by (induction es) force+

lemma wf_tree_sub: "wf_tree es \<Longrightarrow> (n, DirNode ds) \<in> set es \<Longrightarrow> wf_tree ds"
  by (induction es) auto

lemma rglob_shape:
  "q \<in> set (rglob sfx p es) \<Longrightarrow>
     is_absolute q = is_absolute p
     \<and> (\<exists>ns. ns \<noteq> [] \<and> parts q = parts p @ ns \<and> hd ns \<in> fst ` set es
              \<and> fnmatch (last ns) sfx)"
  "q \<in> set (rglob_below sfx p es) \<Longrightarrow>
     is_absolute q = is_absolute p
     \<and> (\<exists>n ns. ns \<noteq> [] \<and> parts q = parts p @ n # ns \<and> n \<in> fst ` set es
              \<and> fnmatch (last ns) sfx)"
proof (induction sfx p es and sfx p es arbitrary: q and q rule: rglob_rglob_below.induct)
  case (1 sfx p es)
  from "1.prems" consider
    (here) n where "n \<in> fst ` set es" "fnmatch n sfx" "q = child p n"
    | (below) "q \<in> set (rglob_below sfx p es)"
    by auto
  then show ?case
  proof cases
    case here
    then have "parts q = parts p @ [n]" "is_absolute q = is_absolute p"
      by (simp_all add: child_def)
    with here show ?thesis by (intro conjI exI [of _ "[n]"]) simp_all
  next
    case below
    from "1.IH" [OF this] obtain n ns where
      "is_absolute q = is_absolute p" "ns \<noteq> []" "parts q = parts p @ n # ns"
      "n \<in> fst ` set es" "fnmatch (last ns) sfx"
      by blast
    then show ?thesis by (intro conjI exI [of _ "n # ns"]) simp_all
  qed
next
  case (2 sfx p)
  then show ?case by simp
next
  case (3 sfx p n es)
  from "3.IH" [OF "3.prems" [simplified]] show ?case by auto
next
  case (4 sfx p n ds es)
  from "4.prems" consider
    (sub) "q \<in> set (rglob sfx (child p n) ds)" | (rest) "q \<in> set (rglob_below sfx p es)"
    by auto
  then show ?case
  proof cases
    case sub
    from "4.IH"(1) [OF this] obtain ns where
      "is_absolute q = is_absolute p" "ns \<noteq> []" "parts q = parts p @ n # ns"
      "fnmatch (last ns) sfx"
      by (auto simp: child_def)
    then show ?thesis by auto
  next
    case rest
    from "4.IH"(2) [OF this] show ?thesis by auto
  qed
qed

lemma rglob_name: "q \<in> set (rglob sfx p es) \<Longrightarrow> fnmatch (path_name q) sfx"
  using rglob_shape(1) [of q sfx p es] by (auto simp: path_name_def)

lemma child_inj: "child p n = child p m \<Longrightarrow> n = m"
  by (simp add: child_def)

lemma distinct_rglob:
  "wf_tree es \<Longrightarrow> distinct (rglob sfx p es)"
  "wf_tree es \<Longrightarrow> distinct (rglob_below sfx p es)"
proof (induction sfx p es and sfx p es rule: rglob_rglob_below.induct)
  case (1 sfx p es)
  have "distinct (map fst es)" using "1.prems" wf_tree_names by blast
  then have a: "distinct (map (child p) (filter (\<lambda>n. fnmatch n sfx) (map fst es)))"
    by (simp add: distinct_map inj_on_def child_def)
  have b: "distinct (rglob_below sfx p es)" using 1 by simp
  have c: "q \<notin> set (rglob_below sfx p es)" if "q = child p n" for q n
  proof
    assume "q \<in> set (rglob_below sfx p es)"
    from rglob_shape(2) [OF this] that show False by (auto simp: child_def)
  qed
  from a b c show ?case by auto
next
  case (2 sfx p)
  then show ?case by simp
next
  case (3 sfx p n es)
  then show ?case by simp
next
  case (4 sfx p n ds es)
  from "4.prems" have wf: "wf_tree ds" "wf_tree es" and fresh: "n \<notin> fst ` set es" by auto
  have "q \<notin> set (rglob_below sfx p es)" if "q \<in> set (rglob sfx (child p n) ds)" for q
  proof
    assume "q \<in> set (rglob_below sfx p es)"
    from rglob_shape(2) [OF this] rglob_shape(1) [OF that]
    obtain m ms ns where "parts q = parts p @ m # ms" "m \<in> fst ` set es"
      "parts q = parts (child p n) @ ns"
      by blast
    then have "m = n" by (simp add: child_def)
    with \<open>m \<in> fst ` set es\<close> fresh show False by simp
  qed
  with "4.IH" wf show ?case by auto
qed

lemma patterns_exclusive:
  assumes "s \<in> set patterns" "t \<in> set patterns" "suffix s n" "suffix t n"
  shows "s = t"
proof -
  from suffix_same_cases [OF assms(3,4)] have "suffix s t \<or> suffix t s" by blast
  with assms(1,2) show ?thesis
    by (auto simp: patterns_def ascii_def suffix_to_prefix)
qed

lemma distinct_concat_map:
  assumes "distinct ss"
    and "\<And>s. s \<in> set ss \<Longrightarrow> distinct (f s)"
    and "\<And>s t. s \<in> set ss \<Longrightarrow> t \<in> set ss \<Longrightarrow> s \<noteq> t \<Longrightarrow> set (f s) \<inter> set (f t) = {}"
  shows "distinct (concat (map f ss))"
  using assms
proof (induction ss)
  case Nil
  then show ?case by simp
next
  case (Cons s ss)
  then show ?case by (simp add: disjoint_iff) blast
qed

lemma distinct_patterns: "distinct patterns"
  by (simp add: patterns_def ascii_def)

lemma find_distinct:
  assumes "wf_tree (tree env)"
  shows "distinct (find_sqlitedb_files env)"
  unfolding find_sqlitedb_files_def
proof (rule distinct_concat_map [OF distinct_patterns])
  fix s
  show "distinct (rglob s (directory_path env) (tree env))"
    using assms by (rule distinct_rglob(1))
next
  fix s t
  assume st: "s \<in> set patterns" "t \<in> set patterns" "s \<noteq> t"
  show "set (rglob s (directory_path env) (tree env))
          \<inter> set (rglob t (directory_path env) (tree env)) = {}"
  proof (rule ccontr)
    assume "\<not> ?thesis"
    then obtain q where "q \<in> set (rglob s (directory_path env) (tree env))"
      and "q \<in> set (rglob t (directory_path env) (tree env))"
      by blast
    then have "suffix s (path_name q)" "suffix t (path_name q)"
      using rglob_name by (auto simp: fnmatch_def)
    with st show False using patterns_exclusive by blast
  qed
qed

lemma find_under_root:
  assumes "q \<in> set (find_sqlitedb_files env)"
  shows "is_absolute q = is_absolute (directory_path env)
         \<and> strict_prefix (parts (directory_path env)) (parts q)"
proof -
  from assms obtain s where "q \<in> set (rglob s (directory_path env) (tree env))"
    by (auto simp: find_sqlitedb_files_def)
  from rglob_shape(1) [OF this] obtain ns where
    "is_absolute q = is_absolute (directory_path env)" "ns \<noteq> []"
    "parts q = parts (directory_path env) @ ns"
    by blast
  then show ?thesis by (simp add: strict_prefix_def)
qed

text \<open>
  Claim C7, amended. Over a tree whose directories hold distinct names, no path occurs
  twice in the result, and every path is the given directory path extended by at least
  one component: it is absolute exactly when the given path is. Nothing makes the given
  path absolute.
\<close>

theorem find_sqlitedb_files_distinct_under_root:
  assumes "wf_tree (tree env)"
  shows "distinct (find_sqlitedb_files env)
         \<and> (\<forall>p \<in> set (find_sqlitedb_files env).
               is_absolute p = is_absolute (directory_path env)
               \<and> strict_prefix (parts (directory_path env)) (parts p))"
  using find_distinct [OF assms] find_under_root by blast

text \<open>The three database files under the relative directory \<open>evidence\<close>.\<close>

lemma find_demo: "find_sqlitedb_files demo_env = [file_bad, file_a, file_xa]"
  by (simp add: find_sqlitedb_files_def patterns_def demo_env_def demo_tree_def evidence_def
      file_a_def file_xa_def file_bad_def child_def fnmatch_def suffix_to_prefix ascii_def)

lemma wf_demo: "wf_tree (tree demo_env)"
  by (simp add: demo_env_def demo_tree_def wf_part_def sep_def ascii_def)

theorem find_sqlitedb_files_distinct_under_root_witness:
  "wf_tree (tree demo_env)
   \<and> find_sqlitedb_files demo_env = [file_bad, file_a, file_xa]
   \<and> distinct [file_bad, file_a, file_xa]
   \<and> strict_prefix (parts evidence) (parts file_xa)"
proof -
  from find_sqlitedb_files_distinct_under_root [OF wf_demo]
  have "distinct (find_sqlitedb_files demo_env)"
    and "\<forall>p \<in> set (find_sqlitedb_files demo_env).
            strict_prefix (parts (directory_path demo_env)) (parts p)"
    by blast+
  then show ?thesis
    by (simp add: find_demo wf_demo) (simp add: demo_env_def)
qed

text \<open>Claim C7 as stated fails there: the paths found are relative.\<close>

theorem find_sqlitedb_files_relative_counterexample:
  "\<not> (distinct (find_sqlitedb_files demo_env)
       \<and> (\<forall>p \<in> set (find_sqlitedb_files demo_env). is_absolute p))"
  by (simp add: find_demo file_bad_def)

subsection \<open>The keys of the run report\<close>

text \<open>\<open>str\<close> is injective on normalised paths: distinct files get distinct keys.\<close>

lemma join_parts_Cons:
  "join_parts (x # xs) = (if xs = [] then x else x @ sep # join_parts xs)"
  by (cases xs) simp_all

lemma split_at_sep:
  "sep \<notin> set x \<Longrightarrow> sep \<notin> set a \<Longrightarrow> x @ sep # r = a @ sep # r' \<Longrightarrow> x = a \<and> r = r'"
proof (induction x arbitrary: a)
  case Nil
  then show ?case by (cases a) auto
next
  case (Cons c x)
  then show ?case by (cases a) auto
qed

lemma join_parts_inj:
  "list_all wf_part ps \<Longrightarrow> list_all wf_part qs \<Longrightarrow> join_parts ps = join_parts qs
     \<Longrightarrow> ps = qs"
proof (induction ps arbitrary: qs)
  case Nil
  then show ?case
    by (cases qs) (auto simp: join_parts_Cons wf_part_def split: if_splits)
next
  case (Cons x xs)
  show ?case
  proof (cases qs)
    case Nil
    with Cons.prems show ?thesis
      by (auto simp: join_parts_Cons wf_part_def split: if_splits)
  next
    case qs: (Cons a as)
    from Cons.prems qs have wx: "list_all wf_part xs" and wa: "list_all wf_part as"
      and "wf_part x" and "wf_part a"
      by simp_all
    then have nx: "sep \<notin> set x" and na: "sep \<notin> set a"
      by (simp_all add: wf_part_def)
    from Cons.prems(3) qs
    have eq: "(if xs = [] then x else x @ sep # join_parts xs)
                = (if as = [] then a else a @ sep # join_parts as)"
      by (simp add: join_parts_Cons)
    show ?thesis
    proof (cases "xs = []")
      case True
      show ?thesis
      proof (cases "as = []")
        case True
        with eq \<open>xs = []\<close> qs show ?thesis by simp
      next
        case False
        with eq \<open>xs = []\<close> have "x = a @ sep # join_parts as" by simp
        then have "sep \<in> set x" by simp
        with nx show ?thesis by simp
      qed
    next
      case False
      show ?thesis
      proof (cases "as = []")
        case True
        with eq \<open>xs \<noteq> []\<close> have "a = x @ sep # join_parts xs" by simp
        then have "sep \<in> set a" by simp
        with na show ?thesis by simp
      next
        case as: False
        with eq \<open>xs \<noteq> []\<close> have "x @ sep # join_parts xs = a @ sep # join_parts as" by simp
        from split_at_sep [OF nx na this] have "x = a" "join_parts xs = join_parts as"
          by simp_all
        with Cons.IH [OF wx wa] qs show ?thesis by simp
      qed
    qed
  qed
qed

lemma join_parts_head:
  "list_all wf_part ps \<Longrightarrow> ps \<noteq> [] \<Longrightarrow> join_parts ps \<noteq> [] \<and> hd (join_parts ps) \<noteq> sep
     \<and> join_parts ps \<noteq> [46]"
proof (cases ps)
  case Nil
  assume "ps \<noteq> []"
  with Nil show ?thesis by simp
next
  case (Cons x xs)
  assume "list_all wf_part ps"
  with Cons have "x \<noteq> []" "sep \<notin> set x" "x \<noteq> [46]" by (simp_all add: wf_part_def)
  then show ?thesis
    unfolding Cons join_parts_Cons
    by (cases x) (auto simp: sep_def)
qed

lemma path_str_inj:
  assumes "wf_path p" "wf_path q" "path_str p = path_str q"
  shows "p = q"
proof -
  have parts_eq: "parts p = parts q" and abs_eq: "is_absolute p = is_absolute q"
  proof -
    note h = join_parts_head [of "parts p"] join_parts_head [of "parts q"]
    note i = join_parts_inj [of "parts p" "parts q"]
    from assms h i show "parts p = parts q"
      unfolding wf_path_def path_str_def
      by (cases "is_absolute p"; cases "is_absolute q"; cases "parts p = []"; cases "parts q = []";
          simp add: sep_def; metis list.sel(1))
    from assms h i show "is_absolute p = is_absolute q"
      unfolding wf_path_def path_str_def
      by (cases "is_absolute p"; cases "is_absolute q"; cases "parts p = []"; cases "parts q = []";
          simp add: sep_def; metis list.sel(1))
  qed
  then show ?thesis by (simp add: path.expand)
qed

lemma wf_path_child: "wf_path p \<Longrightarrow> wf_part n \<Longrightarrow> wf_path (child p n)"
  by (simp add: wf_path_def child_def)

lemma wf_tree_part: "wf_tree es \<Longrightarrow> n \<in> fst ` set es \<Longrightarrow> wf_part n"
  using wf_tree_names [of es] by (auto simp: list_all_iff)

lemma rglob_wf:
  "wf_tree es \<Longrightarrow> wf_path p \<Longrightarrow> q \<in> set (rglob sfx p es) \<Longrightarrow> wf_path q"
  "wf_tree es \<Longrightarrow> wf_path p \<Longrightarrow> q \<in> set (rglob_below sfx p es) \<Longrightarrow> wf_path q"
proof (induction sfx p es and sfx p es rule: rglob_rglob_below.induct)
  case (1 sfx p es)
  from "1.prems"(3) consider
    (here) n where "n \<in> fst ` set es" "q = child p n"
    | (below) "q \<in> set (rglob_below sfx p es)"
    by auto
  then show ?case
  proof cases
    case here
    with "1.prems" show ?thesis by (simp add: wf_path_child wf_tree_part)
  next
    case below
    with 1 show ?thesis by simp
  qed
next
  case (2 sfx p)
  then show ?case by simp
next
  case (3 sfx p n es)
  then show ?case by simp
next
  case (4 sfx p n ds es)
  from "4.prems"(1) have wf: "wf_tree ds" "wf_tree es" "wf_part n" by auto
  from "4.prems"(3) consider
    (sub) "q \<in> set (rglob sfx (child p n) ds)" | (rest) "q \<in> set (rglob_below sfx p es)"
    by auto
  then show ?case
  proof cases
    case sub
    from "4.IH"(1) [OF wf(1) wf_path_child [OF "4.prems"(2) wf(3)] sub] show ?thesis .
  next
    case rest
    from "4.IH"(2) [OF wf(2) "4.prems"(2) rest] show ?thesis .
  qed
qed

lemma find_wf:
  assumes "wf_tree (tree env)" "wf_path (directory_path env)" "q \<in> set (find_sqlitedb_files env)"
  shows "wf_path q"
proof -
  from assms(3) obtain s where "q \<in> set (rglob s (directory_path env) (tree env))"
    by (auto simp: find_sqlitedb_files_def)
  from rglob_wf(1) [OF assms(1,2) this] show ?thesis .
qed

lemma analyze_files_Cons:
  "analyze_files env (f # fs) acc =
     analyze_files env fs
       (AList.update (path_str f) (entry_of (analyze_database env (snd acc) f)) (fst acc),
        snd (analyze_database env (snd acc) f))"
  by (cases "analyze_database env (snd acc) f"; cases "fst (analyze_database env (snd acc) f)")
    (auto simp: entry_of_def)

lemma analyze_files_keys:
  "map fst (fst acc) = ks \<Longrightarrow> distinct (ks @ map path_str fs) \<Longrightarrow>
     map fst (fst (analyze_files env fs acc)) = ks @ map path_str fs"
proof (induction fs arbitrary: acc ks)
  case Nil
  then show ?case by simp
next
  case (Cons f fs)
  let ?acc = "(AList.update (path_str f) (entry_of (analyze_database env (snd acc) f)) (fst acc),
               snd (analyze_database env (snd acc) f))"
  from Cons.prems have "map fst (fst ?acc) = ks @ [path_str f]"
    by (simp add: update_keys)
  moreover from Cons.prems have "distinct ((ks @ [path_str f]) @ map path_str fs)" by simp
  ultimately have "map fst (fst (analyze_files env fs ?acc)) = (ks @ [path_str f]) @ map path_str fs"
    by (rule Cons.IH)
  then show ?case by (simp add: analyze_files_Cons del: analyze_files.simps)
qed

lemma analyze_files_untouched:
  "k \<notin> path_str ` set fs \<Longrightarrow>
     map_of (fst (analyze_files env fs acc)) k = map_of (fst acc) k"
proof (induction fs arbitrary: acc)
  case Nil
  then show ?case by simp
next
  case (Cons f fs)
  then show ?case
    by (simp add: analyze_files_Cons update_conv' del: analyze_files.simps)
qed

lemma analyze_files_entry:
  "distinct (map path_str fs) \<Longrightarrow> p \<in> set fs \<Longrightarrow>
     \<exists>st. map_of (fst (analyze_files env fs acc)) (path_str p)
            = Some (entry_of (analyze_database env st p))"
proof (induction fs arbitrary: acc)
  case Nil
  then show ?case by simp
next
  case (Cons f fs)
  let ?acc = "(AList.update (path_str f) (entry_of (analyze_database env (snd acc) f)) (fst acc),
               snd (analyze_database env (snd acc) f))"
  show ?case
  proof (cases "p = f")
    case True
    from Cons.prems(1) have "path_str f \<notin> path_str ` set fs" by simp
    from analyze_files_untouched [OF this, of env ?acc]
    have "map_of (fst (analyze_files env (f # fs) acc)) (path_str f)
            = Some (entry_of (analyze_database env (snd acc) f))"
      by (simp add: analyze_files_Cons update_conv' del: analyze_files.simps)
    with True show ?thesis by blast
  next
    case False
    with Cons.prems have "distinct (map path_str fs)" "p \<in> set fs" by simp_all
    from Cons.IH [OF this, of ?acc] show ?thesis
      by (simp add: analyze_files_Cons del: analyze_files.simps)
  qed
qed

lemma generate_report_returns:
  assumes "find_sqlitedb_files env \<noteq> []"
    and "write_report env (json_report_path env) = None"
    and "write_report env (text_report_path env) = None"
  shows "\<exists>rep st'. generate_report env st = (Inr (Some rep), st')
           \<and> databases rep = fst (analyze_files env (find_sqlitedb_files env) ([], st))
           \<and> total_files rep = length (find_sqlitedb_files env)"
  using assms
  by (cases "analyze_files env (find_sqlitedb_files env) ([], st)")
    (simp add: generate_report_def generate_text_report_def Let_def)

lemma find_keys_distinct:
  assumes "wf_tree (tree env)" "wf_path (directory_path env)"
  shows "distinct (map path_str (find_sqlitedb_files env))"
proof -
  have "inj_on path_str (set (find_sqlitedb_files env))"
    using find_wf [OF assms] path_str_inj by (auto simp: inj_on_def)
  moreover have "distinct (find_sqlitedb_files env)"
    using assms(1) by (rule find_distinct)
  ultimately show ?thesis by (simp add: distinct_map)
qed

lemma metadata_stat_fails: "stat env p = Inl e \<Longrightarrow> get_file_metadata env p = Inl e"
  by (simp add: get_file_metadata_def)

lemma analyze_stat_fails: "stat env p = Inl e \<Longrightarrow> analyze_database env st p = (Inl e, st)"
  by (simp add: analyze_database_def metadata_stat_fails)

lemma read_loop_fault:
  "k = 0 \<or> (k - 1) * 4096 < length rest \<Longrightarrow> read_loop d h rest (Some (k, e)) = Inl e"
proof (induction k arbitrary: h rest)
  case 0
  show ?case by (subst read_loop.simps) (simp add: fault_now_def)
next
  case (Suc k)
  then have reach: "k * 4096 < length rest" by simp
  then have ne: "rest \<noteq> []" by auto
  from reach have "k = 0 \<or> (k - 1) * 4096 < length (drop 4096 rest)"
    by (cases k) auto
  from Suc.IH [OF this]
  have "read_loop d (h_update d h (take 4096 rest)) (drop 4096 rest) (Some (k, e)) = Inl e" .
  with ne show ?case
    by (subst read_loop.simps) (simp add: fault_now_def tick_def)
qed

lemma hash_read_fails:
  assumes "hashlib_new env t = Some d" "read_fails env q e"
  shows "calculate_hash env q t = Inr (error_prefix @ message e)"
proof (cases "open_rb env q")
  case (Inl e0)
  with assms show ?thesis by (simp add: calculate_hash_def read_fails_def)
next
  case (Inr f)
  with assms(2) obtain k where "fault f = Some (k, e)"
    and "k = 0 \<or> (k - 1) * 4096 < length (data f)"
    by (auto simp: read_fails_def split: option.splits)
  with assms(1) Inr show ?thesis
    by (simp add: calculate_hash_def read_loop_fault)
qed

text \<open>
  Claim C1. A run that finds files and can write its two reports returns a run report
  whose \<open>databases\<close> has exactly the keys \<open>str(p)\<close> of the paths found, in their order and
  each once; the keys of distinct paths are distinct, so the entries are as many as the
  paths (\<open>total_files\<close>); and the entry of a path is what its analysis gave: the report of
  the file, or the message of the exception that left analyze\_database.
\<close>

theorem generate_report_one_entry_per_file:
  assumes "wf_tree (tree env)" "wf_path (directory_path env)"
    and "find_sqlitedb_files env \<noteq> []"
    and "write_report env (json_report_path env) = None"
    and "write_report env (text_report_path env) = None"
  shows "\<exists>rep st'. generate_report env st = (Inr (Some rep), st')
           \<and> map fst (databases rep) = map path_str (find_sqlitedb_files env)
           \<and> distinct (map fst (databases rep))
           \<and> total_files rep = length (databases rep)
           \<and> (\<forall>p \<in> set (find_sqlitedb_files env).
                 \<exists>st_p. map_of (databases rep) (path_str p)
                           = Some (entry_of (analyze_database env st_p p)))"
proof -
  let ?fs = "find_sqlitedb_files env"
  from generate_report_returns [OF assms(3,4,5), of st] obtain rep st' where
    r: "generate_report env st = (Inr (Some rep), st')"
    and d: "databases rep = fst (analyze_files env ?fs ([], st))"
    and t: "total_files rep = length ?fs"
    by blast
  note dk = find_keys_distinct [OF assms(1,2)]
  have keys: "map fst (databases rep) = map path_str ?fs"
    using analyze_files_keys [of "([], st)" "[]" ?fs env] dk by (simp add: d)
  then have "length (databases rep) = length ?fs"
    by (metis length_map)
  moreover have "\<exists>st_p. map_of (databases rep) (path_str p)
                   = Some (entry_of (analyze_database env st_p p))"
    if "p \<in> set ?fs" for p
    unfolding d using analyze_files_entry [OF dk that] .
  ultimately show ?thesis using r keys dk t by auto
qed

text \<open>The run over \<open>evidence\<close>: three files, three entries.\<close>

lemma wf_evidence: "wf_path (directory_path demo_env)"
  by (simp add: demo_env_def evidence_def wf_path_def wf_part_def sep_def ascii_def)

lemma demo_keys:
  "path_str file_bad = ascii ''evidence/bad.sqlite''"
  "path_str file_a = ascii ''evidence/a.db''"
  "path_str file_xa = ascii ''evidence/x/a.db''"
  by (simp_all add: path_str_def file_bad_def file_a_def file_xa_def sep_def ascii_def)

theorem generate_report_one_entry_per_file_witness:
  "wf_tree (tree demo_env) \<and> wf_path (directory_path demo_env)
   \<and> find_sqlitedb_files demo_env = [file_bad, file_a, file_xa]
   \<and> (\<exists>rep st'. generate_report demo_env st0 = (Inr (Some rep), st')
         \<and> map fst (databases rep)
             = [ascii ''evidence/bad.sqlite'', ascii ''evidence/a.db'', ascii ''evidence/x/a.db'']
         \<and> total_files rep = 3)"
proof -
  have ne: "find_sqlitedb_files demo_env \<noteq> []" by (simp add: find_demo)
  from generate_report_one_entry_per_file
         [OF wf_demo wf_evidence ne demo_writes(3) demo_writes(3), of st0]
  obtain rep st' where "generate_report demo_env st0 = (Inr (Some rep), st')"
    and k: "map fst (databases rep) = map path_str (find_sqlitedb_files demo_env)"
    and "total_files rep = length (databases rep)"
    by blast
  moreover from k have "length (databases rep) = length (find_sqlitedb_files demo_env)"
    by (metis length_map)
  ultimately show ?thesis
    using wf_demo wf_evidence by (auto simp: find_demo demo_keys)
qed

subsection \<open>A failure of stat against a failure of reading\<close>

text \<open>
  Claim C8. When \<open>stat\<close> raises on a file, get\_file\_metadata and analyze\_database raise
  the same exception, nothing of the file is analysed, and the run report has
  \<open>{'error': str(e)}\<close> as the whole entry of the file. When instead reading the file for
  its digests fails, at the opening or at any read call of the loop,
  get\_file\_metadata returns a record, whose three digest fields hold the wrapped message.
\<close>

theorem metadata_failure_is_terminal:
  "(stat env p = Inl e \<longrightarrow>
      get_file_metadata env p = Inl e
      \<and> analyze_database env st p = (Inl e, st)
      \<and> (wf_tree (tree env) \<and> wf_path (directory_path env) \<and> p \<in> set (find_sqlitedb_files env)
           \<and> write_report env (json_report_path env) = None
           \<and> write_report env (text_report_path env) = None
         \<longrightarrow> (\<exists>rep st'. generate_report env st = (Inr (Some rep), st')
                  \<and> map_of (databases rep) (path_str p) = Some (Failed (message e)))))
   \<and> (stat env q = Inr sr
        \<and> fromtimestamp env (st_ctime sr) = Inr c
        \<and> fromtimestamp env (st_mtime sr) = Inr m
        \<and> fromtimestamp env (st_atime sr) = Inr a
        \<and> hashlib_new env (ascii ''md5'') = Some d1
        \<and> hashlib_new env (ascii ''sha1'') = Some d2
        \<and> hashlib_new env (ascii ''sha256'') = Some d3
        \<and> read_fails env q e'
      \<longrightarrow> (\<exists>md. get_file_metadata env q = Inr md
              \<and> md5 md = error_prefix @ message e'
              \<and> sha1 md = error_prefix @ message e'
              \<and> sha256 md = error_prefix @ message e'))"
proof (intro conjI impI)
  assume s: "stat env p = Inl e"
  show "get_file_metadata env p = Inl e" using s by (rule metadata_stat_fails)
  show "analyze_database env st p = (Inl e, st)" using s by (rule analyze_stat_fails)
  assume h: "wf_tree (tree env) \<and> wf_path (directory_path env) \<and> p \<in> set (find_sqlitedb_files env)
           \<and> write_report env (json_report_path env) = None
           \<and> write_report env (text_report_path env) = None"
  then have ne: "find_sqlitedb_files env \<noteq> []" by auto
  from h generate_report_returns [OF ne, of st] obtain rep st' where
    r: "generate_report env st = (Inr (Some rep), st')"
    and d: "databases rep = fst (analyze_files env (find_sqlitedb_files env) ([], st))"
    by blast
  from h have "distinct (map path_str (find_sqlitedb_files env))"
    by (simp add: find_keys_distinct)
  from analyze_files_entry [OF this, of p env "([], st)"] h r d obtain st_p where
    "generate_report env st = (Inr (Some rep), st')"
    "map_of (databases rep) (path_str p) = Some (entry_of (analyze_database env st_p p))"
    by auto
  moreover have "entry_of (analyze_database env st_p p) = Failed (message e)"
    by (simp add: analyze_stat_fails [OF s] entry_of_def)
  ultimately show "\<exists>rep st'. generate_report env st = (Inr (Some rep), st')
                     \<and> map_of (databases rep) (path_str p) = Some (Failed (message e))"
    by auto
next
  assume "stat env q = Inr sr
        \<and> fromtimestamp env (st_ctime sr) = Inr c
        \<and> fromtimestamp env (st_mtime sr) = Inr m
        \<and> fromtimestamp env (st_atime sr) = Inr a
        \<and> hashlib_new env (ascii ''md5'') = Some d1
        \<and> hashlib_new env (ascii ''sha1'') = Some d2
        \<and> hashlib_new env (ascii ''sha256'') = Some d3
        \<and> read_fails env q e'"
  then have ok: "stat env q = Inr sr" "fromtimestamp env (st_ctime sr) = Inr c"
    "fromtimestamp env (st_mtime sr) = Inr m" "fromtimestamp env (st_atime sr) = Inr a"
    and d: "hashlib_new env (ascii ''md5'') = Some d1" "hashlib_new env (ascii ''sha1'') = Some d2"
    "hashlib_new env (ascii ''sha256'') = Some d3"
    and f: "read_fails env q e'"
    by simp_all
  note h = hash_read_fails [OF d(1) f] hash_read_fails [OF d(2) f] hash_read_fails [OF d(3) f]
  show "\<exists>md. get_file_metadata env q = Inr md
              \<and> md5 md = error_prefix @ message e'
              \<and> sha1 md = error_prefix @ message e'
              \<and> sha256 md = error_prefix @ message e'"
    by (simp add: get_file_metadata_def ok h)
qed

text \<open>
  \<open>evidence/bad.sqlite\<close>, on which \<open>stat\<close> fails, against \<open>evidence/locked.db\<close>, whose second
  read call fails after a first chunk of 4096 octets.
\<close>

lemma stat_bad: "stat demo_env file_bad = Inl (Exception (ascii ''No such file or directory''))"
  by (simp add: demo_env_def)

lemma stat_locked:
  "stat demo_env file_locked = Inr \<lparr>st_size = 5000, st_ctime = 0, st_mtime = 0, st_atime = 0\<rparr>"
  by (simp add: demo_env_def file_locked_def file_bad_def ascii_def)

lemma open_locked:
  "open_rb demo_env file_locked
     = Inr (File (replicate 5000 1) (Some (1, Exception (ascii ''Input/output error''))))"
  by (simp add: demo_env_def file_locked_def file_a_def file_xa_def ascii_def)

lemma read_fails_locked:
  "read_fails demo_env file_locked (Exception (ascii ''Input/output error''))"
  by (simp add: read_fails_def open_locked)

lemma demo_hashlib:
  "hashlib_new demo_env (ascii ''md5'') = Some toy_digest"
  "hashlib_new demo_env (ascii ''sha1'') = Some toy_digest"
  "hashlib_new demo_env (ascii ''sha256'') = Some toy_digest"
  by (simp_all add: demo_env_def)

lemma demo_fromtimestamp: "fromtimestamp demo_env t = Inr (ascii ''1970-01-01 00:00:00'')"
  by (simp add: demo_env_def)

theorem metadata_failure_is_terminal_witness:
  "stat demo_env file_bad = Inl (Exception (ascii ''No such file or directory''))
   \<and> get_file_metadata demo_env file_bad = Inl (Exception (ascii ''No such file or directory''))
   \<and> analyze_database demo_env st0 file_bad
       = (Inl (Exception (ascii ''No such file or directory'')), st0)
   \<and> (\<exists>rep st'. generate_report demo_env st0 = (Inr (Some rep), st')
         \<and> map_of (databases rep) (ascii ''evidence/bad.sqlite'')
             = Some (Failed (ascii ''No such file or directory'')))
   \<and> open_rb demo_env file_locked
       = Inr (File (replicate 5000 1) (Some (1, Exception (ascii ''Input/output error''))))
   \<and> read_fails demo_env file_locked (Exception (ascii ''Input/output error''))
   \<and> (\<exists>md. get_file_metadata demo_env file_locked = Inr md
         \<and> md5 md = error_prefix @ ascii ''Input/output error''
         \<and> sha1 md = error_prefix @ ascii ''Input/output error''
         \<and> sha256 md = error_prefix @ ascii ''Input/output error'')"
proof -
  have found: "file_bad \<in> set (find_sqlitedb_files demo_env)" by (simp add: find_demo)
  note t = metadata_failure_is_terminal
    [where env = demo_env and p = file_bad and st = st0 and q = file_locked
       and e = "Exception (ascii ''No such file or directory'')"
       and sr = "\<lparr>st_size = 5000, st_ctime = 0, st_mtime = 0, st_atime = 0\<rparr>"
       and c = "ascii ''1970-01-01 00:00:00''" and m = "ascii ''1970-01-01 00:00:00''"
       and a = "ascii ''1970-01-01 00:00:00''"
       and ?d1.0 = toy_digest and ?d2.0 = toy_digest and ?d3.0 = toy_digest
       and e' = "Exception (ascii ''Input/output error'')"]
  from t stat_bad wf_demo wf_evidence found demo_writes(3)
  have first: "get_file_metadata demo_env file_bad = Inl (Exception (ascii ''No such file or directory''))"
    "analyze_database demo_env st0 file_bad
       = (Inl (Exception (ascii ''No such file or directory'')), st0)"
    "\<exists>rep st'. generate_report demo_env st0 = (Inr (Some rep), st')
         \<and> map_of (databases rep) (path_str file_bad)
             = Some (Failed (message (Exception (ascii ''No such file or directory''))))"
    by blast+
  from t stat_locked read_fails_locked demo_hashlib demo_fromtimestamp
  have second: "\<exists>md. get_file_metadata demo_env file_locked = Inr md
         \<and> md5 md = error_prefix @ message (Exception (ascii ''Input/output error''))
         \<and> sha1 md = error_prefix @ message (Exception (ascii ''Input/output error''))
         \<and> sha256 md = error_prefix @ message (Exception (ascii ''Input/output error''))"
    by simp
  from first second stat_bad open_locked read_fails_locked show ?thesis
    by (simp add: demo_keys)
qed

end
